theory Spec2Isabelle
  imports Main
begin

section \<open>Timestamps and text\<close>

text \<open>
  A column of type \<open>DateTime\<close> holds a timestamp without time zone: it is modelled as the
  integer number of microseconds since 0001-01-01 00:00:00 (the wall clock of UTC). A
  Python \<open>datetime\<close> object is either naive (what \<open>datetime.utcnow()\<close> returns and what
  is read from a column) or aware (what \<open>datetime.now(timezone.utc)\<close> returns); written
  to a column, both leave their wall-clock value. A \<open>timedelta\<close> is a signed number of
  microseconds. The operations raise as Python's do: \<open>timedelta(days=n)\<close> for a magnitude
  above 999999999, an addition that leaves the years 1 to 9999, and a subtraction or an
  order comparison of a naive with an aware object.
\<close>

type_synonym timestamp = int
type_synonym timedelta = int

datatype exn = IntegrityError | OverflowError | TypeError | DataError

datatype pydatetime = Naive timestamp | Aware timestamp

definition of_days :: "int \<Rightarrow> timedelta" where
  "of_days n = n * 86400000000"

definition DATETIME_MAX :: timestamp where
  "DATETIME_MAX = of_days 3652059 - 1"

definition timedelta_days :: "int \<Rightarrow> exn + timedelta" where
  "timedelta_days n =
     (if - 999999999 \<le> n \<and> n \<le> 999999999 then Inr (of_days n) else Inl OverflowError)"

fun dt_add :: "pydatetime \<Rightarrow> timedelta \<Rightarrow> exn + pydatetime" where
  "dt_add (Naive t) d =
     (if 0 \<le> t + d \<and> t + d \<le> DATETIME_MAX then Inr (Naive (t + d)) else Inl OverflowError)"
| "dt_add (Aware t) d =
     (if 0 \<le> t + d \<and> t + d \<le> DATETIME_MAX then Inr (Aware (t + d)) else Inl OverflowError)"

fun dt_sub :: "pydatetime \<Rightarrow> pydatetime \<Rightarrow> exn + timedelta" where
  "dt_sub (Naive a) (Naive b) = Inr (a - b)"
| "dt_sub (Aware a) (Aware b) = Inr (a - b)"
| "dt_sub (Naive a) (Aware b) = Inl TypeError"
| "dt_sub (Aware a) (Naive b) = Inl TypeError"

fun dt_gt :: "pydatetime \<Rightarrow> pydatetime \<Rightarrow> exn + bool" where
  "dt_gt (Naive a) (Naive b) = Inr (a > b)"
| "dt_gt (Aware a) (Aware b) = Inr (a > b)"
| "dt_gt (Naive a) (Aware b) = Inl TypeError"
| "dt_gt (Aware a) (Naive b) = Inl TypeError"

text \<open>The value that a column keeps of a datetime object.\<close>

fun column :: "pydatetime \<Rightarrow> timestamp" where
  "column (Naive t) = t"
| "column (Aware t) = t"

text \<open>\<open>t + timedelta(days=n)\<close>.\<close>

definition plus_days :: "pydatetime \<Rightarrow> int \<Rightarrow> exn + pydatetime" where
  "plus_days t n = (case timedelta_days n of Inl e \<Rightarrow> Inl e | Inr d \<Rightarrow> dt_add t d)"

text \<open>The attributes \<open>.days\<close> and \<open>.seconds\<close> of a (normalised) timedelta.\<close>

definition td_days :: "timedelta \<Rightarrow> int" where
  "td_days d = d div 86400000000"

definition td_seconds :: "timedelta \<Rightarrow> int" where
  "td_seconds d = (d mod 86400000000) div 1000000"

text \<open>\<open>data.get(field, default)\<close> on a JSON body.\<close>

definition get_or :: "'a option \<Rightarrow> 'a \<Rightarrow> 'a" where
  "get_or v d = (case v of None \<Rightarrow> d | Some x \<Rightarrow> x)"

text \<open>
  What the handlers take from outside the sources: the string methods \<open>str.strip\<close>,
  \<open>str.upper\<close> and \<open>str.lower\<close> of Python (their Unicode tables are not reproduced), the
  validators of utils/validators.py (not among the sources), the password hashing of the
  library and the configuration value \<open>TRIAL_DURATION_DAYS\<close>.
\<close>

record env =
  str_strip :: "string \<Rightarrow> string"
  str_upper :: "string \<Rightarrow> string"
  str_lower :: "string \<Rightarrow> string"
  validate_email :: "string \<Rightarrow> bool"
  validate_password :: "string \<Rightarrow> bool"
  generate_password_hash :: "string \<Rightarrow> string"
  check_password_hash :: "string \<Rightarrow> string \<Rightarrow> bool"
  trial_duration_days :: int

text \<open>\<open>text.strip() or None\<close>.\<close>

definition strip_or_none :: "env \<Rightarrow> string \<Rightarrow> string option" where
  "strip_or_none env x = (let y = str_strip env x in if y = [] then None else Some y)"


section \<open>Data model\<close>

text \<open>
  \<open>models/activation_key.py\<close> and \<open>models/device.py\<close>. The primary key \<open>id\<close> is
  \<open>key_id\<close> and \<open>dev_id\<close>, the column \<open>notes\<close> is \<open>key_notes\<close>; the device's \<open>user_id\<close>
  is \<open>dev_user_id\<close>. A nullable column is an option. \<open>sold_price\<close> (a decimal with two
  places) is counted in hundredths.
\<close>

record activation_key =
  key_id :: nat
  key_code :: string
  duration_days :: int
  status :: string
  user_id :: "nat option"
  activated_email :: "string option"
  activated_at :: "timestamp option"
  expires_at :: "timestamp option"
  sold_to_name :: "string option"
  sold_to_email :: "string option"
  sold_at :: "timestamp option"
  sold_price :: "int option"
  key_notes :: "string option"
  created_by :: "nat option"
  created_at :: "timestamp option"

record device =
  dev_id :: nat
  dev_user_id :: nat
  device_id :: string
  platform :: string
  trial_started_at :: "timestamp option"
  trial_expires_at :: timestamp
  dev_created_at :: "timestamp option"

text \<open>
  The user model's file is not among the sources; these are the columns the handlers read
  and write (\<open>id\<close> is \<open>uid\<close>).
\<close>

record user =
  uid :: nat
  email :: string
  password_hash :: string
  is_active :: bool
  is_admin :: bool

text \<open>
  The store: the three tables in insertion order, and the next value of each primary-key
  sequence. A query on a unique column and \<open>Query.get\<close> are \<^const>\<open>find\<close> on the table;
  the object obtained is that row, and assigning to it and committing rewrites this row.
\<close>

record db =
  users :: "user list"
  activation_keys :: "activation_key list"
  devices :: "device list"
  next_user_id :: nat
  next_key_id :: nat
  next_device_id :: nat

definition init_db :: db where
  "init_db = \<lparr>users = [], activation_keys = [], devices = [],
     next_user_id = 1, next_key_id = 1, next_device_id = 1\<rparr>"

fun update_first :: "('a \<Rightarrow> bool) \<Rightarrow> ('a \<Rightarrow> 'a) \<Rightarrow> 'a list \<Rightarrow> 'a list" where
  "update_first P f [] = []"
| "update_first P f (x # xs) = (if P x then f x # xs else x # update_first P f xs)"

fun delete_first :: "('a \<Rightarrow> bool) \<Rightarrow> 'a list \<Rightarrow> 'a list" where
  "delete_first P [] = []"
| "delete_first P (x # xs) = (if P x then xs else x # delete_first P xs)"

text \<open>
  \<open>Query.first()\<close> of a query without \<open>ORDER BY\<close> that several rows can match: the
  store returns the matching rows in an order of its own, so the row obtained is the
  matching row that the store's choice \<open>sel\<close> points at. The commit of an object obtained
  this way is the update of the row with its primary key.
\<close>

definition first_of :: "nat \<Rightarrow> ('a \<Rightarrow> bool) \<Rightarrow> 'a list \<Rightarrow> 'a option" where
  "first_of sel P xs =
     (case filter P xs of [] \<Rightarrow> None | y # ys \<Rightarrow> Some ((y # ys) ! (sel mod length (y # ys))))"

definition update_row :: "activation_key \<Rightarrow> activation_key list \<Rightarrow> activation_key list" where
  "update_row key' ks = map (\<lambda>k. if key_id k = key_id key' then key' else k) ks"

text \<open>
  What a handler gives back: a JSON payload with its HTTP status, an error body with its
  HTTP status, or an exception that no handler catches (HTTP status 500; what was not
  committed before is rolled back).
\<close>

datatype error =
    RequestBodyRequired | KeyCodeRequired | InvalidActivationKey | AlreadyActivated
  | KeyRevoked | CannotBeActivated | UserNotFound | AccountDisabled | AdminAccessRequired
  | DaysMustBePositive | NoActivatedKey | KeyIdRequired | KeyNotFound | KeyUsedOrRevoked
  | CredentialsAndDeviceRequired | InvalidEmailFormat | PasswordTooShort | BadPlatform
  | EmailAlreadyRegistered | TrialAlreadyUsed | EmailAndPasswordRequired
  | InvalidEmailOrPassword

datatype 'a response = Response nat 'a | Failure nat error | Unhandled exn

text \<open>
  Inserting a row. The table \<open>devices\<close> carries the unique constraint
  \<open>uq_device_platform\<close> on \<open>(device_id, platform)\<close>, the column \<open>key_code\<close> is declared
  \<open>unique=True\<close>: the insert of a row that repeats an existing value raises.
\<close>

definition insert_device :: "device \<Rightarrow> db \<Rightarrow> exn + db" where
  "insert_device d s =
     (if (device_id d, platform d) \<in> set (map (\<lambda>x. (device_id x, platform x)) (devices s))
      then Inl IntegrityError
      else Inr (s\<lparr>devices := devices s @ [d\<lparr>dev_id := next_device_id s\<rparr>],
                  next_device_id := Suc (next_device_id s)\<rparr>))"

definition insert_key :: "activation_key \<Rightarrow> db \<Rightarrow> exn + db" where
  "insert_key k s =
     (if key_code k \<in> set (map key_code (activation_keys s))
      then Inl IntegrityError
      else Inr (s\<lparr>activation_keys := activation_keys s @ [k\<lparr>key_id := next_key_id s\<rparr>],
                  next_key_id := Suc (next_key_id s)\<rparr>))"

fun flush_keys :: "activation_key list \<Rightarrow> db \<Rightarrow> exn + db" where
  "flush_keys [] s = Inr s"
| "flush_keys (k # ks) s =
     (case insert_key k s of Inl e \<Rightarrow> Inl e | Inr s' \<Rightarrow> flush_keys ks s')"

text \<open>
  The column \<open>duration_days\<close> is a 32-bit integer of the PostgreSQL store that the
  configuration names: the commit of a value outside its range raises.
\<close>

definition int32 :: "int \<Rightarrow> bool" where
  "int32 n = (- 2147483648 \<le> n \<and> n \<le> 2147483647)"


section \<open>Authentication decorators (middleware/auth_required.py)\<close>

text \<open>
  The token check is the authenticator's; the decorators receive the identity it asserts.
\<close>

definition jwt_required_custom ::
  "(user \<Rightarrow> db \<Rightarrow> 'a response \<times> db) \<Rightarrow> nat \<Rightarrow> db \<Rightarrow> 'a response \<times> db" where
  "jwt_required_custom fn ident s =
     (case find (\<lambda>u. uid u = ident) (users s) of
        None \<Rightarrow> (Failure 404 UserNotFound, s)
      | Some u \<Rightarrow>
          if \<not> is_active u then (Failure 403 AccountDisabled, s)
          else fn u s)"

definition admin_required ::
  "(user \<Rightarrow> db \<Rightarrow> 'a response \<times> db) \<Rightarrow> nat \<Rightarrow> db \<Rightarrow> 'a response \<times> db" where
  "admin_required fn ident s =
     (case find (\<lambda>u. uid u = ident) (users s) of
        None \<Rightarrow> (Failure 404 UserNotFound, s)
      | Some u \<Rightarrow>
          if \<not> is_active u then (Failure 403 AccountDisabled, s)
          else if \<not> is_admin u then (Failure 403 AdminAccessRequired, s)
          else fn u s)"


section \<open>Entitlement evaluation\<close>

text \<open>
  The dictionary both evaluators return; a key the dictionary does not carry is \<open>None\<close>.
\<close>

record activation_info =
  info_status :: string
  info_key_code :: "string option"
  info_email :: "string option"
  info_activated_at :: "timestamp option"
  info_expires_at :: "timestamp option"
  info_days_remaining :: int
  info_hours_remaining :: "int option"

text \<open>
  The two queries, evaluated by the store; a comparison with a null column is not true.
  Several rows can match either of them; what the evaluators return does not depend on
  which matching row the store returns first (see \<open>evaluators_raise_on_key\<close> below), and
  the queries are written with \<^const>\<open>find\<close>.
\<close>

definition active_key_query :: "nat \<Rightarrow> timestamp \<Rightarrow> activation_key \<Rightarrow> bool" where
  "active_key_query u now k =
     (user_id k = Some u \<and> status k = ''activated'' \<and>
      (case expires_at k of None \<Rightarrow> False | Some e \<Rightarrow> e > now))"

definition active_trial_query :: "nat \<Rightarrow> timestamp \<Rightarrow> device \<Rightarrow> bool" where
  "active_trial_query u now d = (dev_user_id d = u \<and> trial_expires_at d > now)"

text \<open>
  \<open>_get_activation_status\<close> of routes/auth.py. The clock \<open>now\<close> is read with
  \<open>datetime.now(timezone.utc)\<close>, and the expiry that it is subtracted from comes from a
  column.
\<close>

definition get_activation_status :: "user \<Rightarrow> timestamp \<Rightarrow> db \<Rightarrow> exn + activation_info" where
  "get_activation_status usr now s =
     (if is_admin usr then
        Inr \<lparr>info_status = ''active'', info_key_code = None, info_email = None,
             info_activated_at = None, info_expires_at = None,
             info_days_remaining = 999, info_hours_remaining = None\<rparr>
      else case find (active_key_query (uid usr) now) (activation_keys s) of
        Some active_key \<Rightarrow>
          (case dt_sub (Naive (the (expires_at active_key))) (Aware now) of
             Inl e \<Rightarrow> Inl e
           | Inr delta \<Rightarrow>
               Inr \<lparr>info_status = ''active'', info_key_code = Some (key_code active_key),
                    info_email = activated_email active_key,
                    info_activated_at = activated_at active_key,
                    info_expires_at = expires_at active_key,
                    info_days_remaining = max 0 (td_days delta),
                    info_hours_remaining = None\<rparr>)
      | None \<Rightarrow>
          (case find (active_trial_query (uid usr) now) (devices s) of
             Some active_trial \<Rightarrow>
               (case dt_sub (Naive (trial_expires_at active_trial)) (Aware now) of
                  Inl e \<Rightarrow> Inl e
                | Inr delta \<Rightarrow>
                    Inr \<lparr>info_status = ''trial'', info_key_code = None, info_email = None,
                         info_activated_at = None,
                         info_expires_at = Some (trial_expires_at active_trial),
                         info_days_remaining = max 0 (td_days delta),
                         info_hours_remaining = Some (td_seconds delta div 3600)\<rparr>)
           | None \<Rightarrow>
               Inr \<lparr>info_status = ''expired'', info_key_code = None, info_email = None,
                    info_activated_at = None, info_expires_at = None,
                    info_days_remaining = 0, info_hours_remaining = None\<rparr>))"

text \<open>The handler \<open>status\<close> of routes/activation.py (\<open>GET /activation/status\<close>).\<close>

definition status_route :: "timestamp \<Rightarrow> user \<Rightarrow> db \<Rightarrow> activation_info response \<times> db" where
  "status_route now usr s =
     (case find (active_key_query (uid usr) now) (activation_keys s) of
        Some active_key \<Rightarrow>
          (case dt_sub (Naive (the (expires_at active_key))) (Aware now) of
             Inl e \<Rightarrow> (Unhandled e, s)
           | Inr delta \<Rightarrow>
               (Response 200
                 \<lparr>info_status = ''active'', info_key_code = Some (key_code active_key),
                  info_email = activated_email active_key,
                  info_activated_at = activated_at active_key,
                  info_expires_at = expires_at active_key,
                  info_days_remaining = max 0 (td_days delta),
                  info_hours_remaining = None\<rparr>, s))
      | None \<Rightarrow>
          (case find (active_trial_query (uid usr) now) (devices s) of
             Some active_trial \<Rightarrow>
               (case dt_sub (Naive (trial_expires_at active_trial)) (Aware now) of
                  Inl e \<Rightarrow> (Unhandled e, s)
                | Inr delta \<Rightarrow>
                    (Response 200
                      \<lparr>info_status = ''trial'', info_key_code = None, info_email = None,
                       info_activated_at = None,
                       info_expires_at = Some (trial_expires_at active_trial),
                       info_days_remaining = max 0 (td_days delta),
                       info_hours_remaining = None\<rparr>, s))
           | None \<Rightarrow>
               (Response 200
                 \<lparr>info_status = ''expired'', info_key_code = None, info_email = None,
                  info_activated_at = None, info_expires_at = None,
                  info_days_remaining = 0, info_hours_remaining = None\<rparr>, s)))"


section \<open>Redemption (routes/activation.py)\<close>

record activate_body =
  body_key_code :: "string option"

text \<open>
  The handler \<open>activate\<close>. A body that is missing or empty is \<open>None\<close>. The clock is read
  with \<open>datetime.now(timezone.utc)\<close>. The query \<open>existing_active\<close> is evaluated and its
  result is not used. The expiry is computed before the commit: when the addition raises,
  nothing is written.
\<close>

definition activate ::
  "env \<Rightarrow> activate_body option \<Rightarrow> timestamp \<Rightarrow> user \<Rightarrow> db
     \<Rightarrow> activation_info response \<times> db" where
  "activate env data now usr s =
     (case data of
        None \<Rightarrow> (Failure 400 RequestBodyRequired, s)
      | Some d \<Rightarrow>
          (let code = str_upper env (str_strip env (get_or (body_key_code d) [])) in
           if code = [] then (Failure 400 KeyCodeRequired, s)
           else case find (\<lambda>k. key_code k = code) (activation_keys s) of
             None \<Rightarrow> (Failure 404 InvalidActivationKey, s)
           | Some key \<Rightarrow>
               if status key = ''activated'' then (Failure 409 AlreadyActivated, s)
               else if status key = ''revoked'' then (Failure 409 KeyRevoked, s)
               else if status key \<notin> set [''available'', ''sold'']
                 then (Failure 400 CannotBeActivated, s)
               else
                 (let existing_active = find (active_key_query (uid usr) now) (activation_keys s)
                  in case plus_days (Aware now) (duration_days key) of
                    Inl e \<Rightarrow> (Unhandled e, s)
                  | Inr expiry \<Rightarrow>
                      (let key' = key\<lparr>user_id := Some (uid usr),
                                      activated_email := Some (email usr),
                                      activated_at := Some (column (Aware now)),
                                      expires_at := Some (column expiry),
                                      status := ''activated''\<rparr>
                       in (Response 200
                             \<lparr>info_status = ''active'', info_key_code = Some (key_code key'),
                              info_email = activated_email key',
                              info_activated_at = activated_at key',
                              info_expires_at = expires_at key',
                              info_days_remaining = duration_days key',
                              info_hours_remaining = None\<rparr>,
                           s\<lparr>activation_keys :=
                               update_first (\<lambda>k. key_code k = code) (\<lambda>_. key')
                                 (activation_keys s)\<rparr>)))))"


section \<open>Administration of licences and keys (routes/admin.py)\<close>

text \<open>The handlers of routes/admin.py read the clock with \<open>datetime.utcnow()\<close>.\<close>

record extend_body =
  ext_days :: "int option"

text \<open>
  The branch of \<open>extend_license\<close> on the found key (lines 259 to 267): the key with its
  new window, or the exception of the date arithmetic.
\<close>

definition extended :: "activation_key \<Rightarrow> int \<Rightarrow> timestamp \<Rightarrow> exn + activation_key" where
  "extended key n now =
     (let restart =
        (case plus_days (Naive now) n of
           Inl e \<Rightarrow> Inl e
         | Inr t \<Rightarrow> Inr (key\<lparr>activated_at := Some (column (Naive now)),
                              expires_at := Some (column t),
                              duration_days := n\<rparr>))
      in case expires_at key of
        None \<Rightarrow> restart
      | Some e \<Rightarrow>
          (case dt_gt (Naive e) (Naive now) of
             Inl x \<Rightarrow> Inl x
           | Inr still_active \<Rightarrow>
               if still_active then
                 (case plus_days (Naive e) n of
                    Inl x \<Rightarrow> Inl x
                  | Inr t \<Rightarrow> Inr (key\<lparr>expires_at := Some (column t),
                                       duration_days := duration_days key + n\<rparr>))
               else restart))"

text \<open>
  \<open>extend_license\<close>. The query for the user's activated key has no order, and a user can
  hold several activated keys: \<open>sel\<close> is the store's choice among them.
\<close>

definition extend_license ::
  "nat \<Rightarrow> nat \<Rightarrow> extend_body option \<Rightarrow> timestamp \<Rightarrow> user \<Rightarrow> db
     \<Rightarrow> activation_key response \<times> db" where
  "extend_license sel target_id data now admin s =
     (if target_id = 1 then (Failure 404 UserNotFound, s)
      else case find (\<lambda>u. uid u = target_id) (users s) of
        None \<Rightarrow> (Failure 404 UserNotFound, s)
      | Some target \<Rightarrow>
          (case data of
             None \<Rightarrow> (Failure 400 RequestBodyRequired, s)
           | Some d \<Rightarrow>
               (let n = get_or (ext_days d) 0 in
                if n = 0 \<or> n < 1 then (Failure 400 DaysMustBePositive, s)
                else case first_of sel (\<lambda>k. user_id k = Some target_id \<and> status k = ''activated'')
                            (activation_keys s) of
                  None \<Rightarrow> (Failure 404 NoActivatedKey, s)
                | Some key \<Rightarrow>
                    (case extended key n now of
                       Inl e \<Rightarrow> (Unhandled e, s)
                     | Inr key' \<Rightarrow>
                         if \<not> int32 (duration_days key') then (Unhandled DataError, s)
                         else (Response 200 key',
                               s\<lparr>activation_keys := update_row key' (activation_keys s)\<rparr>)))))"

record assign_body =
  asg_key_id :: "nat option"

definition assign_key ::
  "nat \<Rightarrow> assign_body option \<Rightarrow> timestamp \<Rightarrow> user \<Rightarrow> db \<Rightarrow> activation_key response \<times> db" where
  "assign_key target_id data now admin s =
     (if target_id = 1 then (Failure 404 UserNotFound, s)
      else case find (\<lambda>u. uid u = target_id) (users s) of
        None \<Rightarrow> (Failure 404 UserNotFound, s)
      | Some target \<Rightarrow>
          (case data of
             None \<Rightarrow> (Failure 400 RequestBodyRequired, s)
           | Some d \<Rightarrow>
               (case asg_key_id d of
                  None \<Rightarrow> (Failure 400 KeyIdRequired, s)
                | Some kid \<Rightarrow>
                    if kid = 0 then (Failure 400 KeyIdRequired, s)
                    else
                      (case find (\<lambda>k. key_id k = kid) (activation_keys s) of
                         None \<Rightarrow> (Failure 404 KeyNotFound, s)
                       | Some key \<Rightarrow>
                           if status key \<notin> set [''available'', ''sold'']
                           then (Failure 400 KeyUsedOrRevoked, s)
                           else
                             (case plus_days (Naive now) (duration_days key) of
                                Inl e \<Rightarrow> (Unhandled e, s)
                              | Inr expiry \<Rightarrow>
                                  (let key' = key\<lparr>user_id := Some (uid target),
                                                  activated_email := Some (email target),
                                                  activated_at := Some (column (Naive now)),
                                                  expires_at := Some (column expiry),
                                                  status := ''activated''\<rparr>
                                   in (Response 200 key',
                                       s\<lparr>activation_keys :=
                                           update_first (\<lambda>k. key_id k = kid) (\<lambda>_. key')
                                             (activation_keys s)\<rparr>)))))))"

text \<open>
  utils/key_generator.py. Each call of \<open>secrets.choice\<close> consumes one value of the random
  source \<open>rnd\<close>, reduced to an index into \<open>CHARS\<close>.
\<close>

definition CHARS :: string where
  "CHARS = ''ABCDEFGHJKMNPQRSTUVWXYZ23456789''"

definition choice :: "nat \<Rightarrow> char" where
  "choice r = CHARS ! (r mod length CHARS)"

fun join :: "string \<Rightarrow> string list \<Rightarrow> string" where
  "join sep [] = []"
| "join sep [x] = x"
| "join sep (x # y # ys) = x @ sep @ join sep (y # ys)"

definition generate_activation_key :: "(nat \<Rightarrow> nat) \<Rightarrow> string" where
  "generate_activation_key rnd =
     (let groups = map (\<lambda>g. map (\<lambda>j. choice (rnd (4 * g + j))) [0..<4]) [0..<4]
      in join ''-'' groups)"

record generate_body =
  gen_count :: "int option"
  gen_duration_days :: "int option"
  gen_sold_to_name :: "string option"
  gen_sold_to_email :: "string option"
  gen_sold_price :: "int option"
  gen_notes :: "string option"

text \<open>
  The rows that the loop of \<open>generate_keys\<close> hands to the session (\<open>db.session.add\<close>), in
  order; the \<open>i\<close>-th key draws the values \<open>16 i, \<dots>, 16 i + 15\<close> of the random source.
\<close>

definition pending_keys ::
  "env \<Rightarrow> (nat \<Rightarrow> nat) \<Rightarrow> generate_body \<Rightarrow> timestamp \<Rightarrow> user \<Rightarrow> activation_key list" where
  "pending_keys env rnd d now admin_user =
     (let count = min (max 1 (get_or (gen_count d) 1)) 100;
          duration = get_or (gen_duration_days d) 365;
          name = strip_or_none env (get_or (gen_sold_to_name d) []);
          mail = strip_or_none env (get_or (gen_sold_to_email d) []);
          price = gen_sold_price d;
          note = strip_or_none env (get_or (gen_notes d) []);
          sold = (name \<noteq> None \<or> mail \<noteq> None);
          initial_status = (if sold then ''sold'' else ''available'');
          sold_time = (if sold then Some now else None)
      in map (\<lambda>i. \<lparr>key_id = 0,
                     key_code = generate_activation_key (\<lambda>n. rnd (16 * i + n)),
                     duration_days = duration, status = initial_status,
                     user_id = None, activated_email = None, activated_at = None,
                     expires_at = None,
                     sold_to_name = name, sold_to_email = mail, sold_at = sold_time,
                     sold_price = price, key_notes = note,
                     created_by = Some (uid admin_user), created_at = Some now\<rparr>)
           [0..<nat count])"

definition generate_keys ::
  "env \<Rightarrow> (nat \<Rightarrow> nat) \<Rightarrow> generate_body option \<Rightarrow> timestamp \<Rightarrow> user \<Rightarrow> db
     \<Rightarrow> activation_key list response \<times> db" where
  "generate_keys env rnd data now admin_user s =
     (case data of
        None \<Rightarrow> (Failure 400 RequestBodyRequired, s)
      | Some d \<Rightarrow>
          (case flush_keys (pending_keys env rnd d now admin_user) s of
             Inl e \<Rightarrow> (Unhandled e, s)
           | Inr s' \<Rightarrow>
               (Response 201 (drop (length (activation_keys s)) (activation_keys s')), s')))"

record update_key_body =
  upd_status :: "string option"
  upd_sold_to_name :: "string option"
  upd_sold_to_email :: "string option"
  upd_sold_price :: "int option option"
  upd_notes :: "string option"
  upd_duration_days :: "int option"

text \<open>
  \<open>update_key\<close>, in the order of the source: the status part (revocation, which also ends
  the running trials of the key's user, or the step from available to sold), then the sale
  fields and notes, then the duration with the recomputed expiry, whose addition can raise
  before the commit.
\<close>

definition revoke_trials :: "nat option \<Rightarrow> timestamp \<Rightarrow> device list \<Rightarrow> device list" where
  "revoke_trials owner now ds =
     (case owner of
        None \<Rightarrow> ds
      | Some u \<Rightarrow>
          if u = 0 then ds
          else map (\<lambda>d. if dev_user_id d = u \<and> trial_expires_at d > now
                         then d\<lparr>trial_expires_at := now\<rparr> else d) ds)"

definition update_status ::
  "update_key_body \<Rightarrow> timestamp \<Rightarrow> activation_key \<Rightarrow> activation_key" where
  "update_status d now key =
     (case upd_status d of
        None \<Rightarrow> key
      | Some new_status \<Rightarrow>
          if new_status = ''revoked''
          then key\<lparr>status := ''revoked'', user_id := None, activated_email := None,
                   activated_at := None, expires_at := None\<rparr>
          else if new_status = ''sold'' \<and> status key = ''available''
          then key\<lparr>status := ''sold'', sold_at := Some now\<rparr>
          else key)"

definition update_sale_fields ::
  "env \<Rightarrow> update_key_body \<Rightarrow> activation_key \<Rightarrow> activation_key" where
  "update_sale_fields env d key =
     (let k1 = (case upd_sold_to_name d of
                  None \<Rightarrow> key | Some v \<Rightarrow> key\<lparr>sold_to_name := strip_or_none env v\<rparr>);
          k2 = (case upd_sold_to_email d of
                  None \<Rightarrow> k1 | Some v \<Rightarrow> k1\<lparr>sold_to_email := strip_or_none env v\<rparr>);
          k3 = (case upd_sold_price d of
                  None \<Rightarrow> k2 | Some v \<Rightarrow> k2\<lparr>sold_price := v\<rparr>);
          k4 = (case upd_notes d of
                  None \<Rightarrow> k3 | Some v \<Rightarrow> k3\<lparr>key_notes := strip_or_none env v\<rparr>)
      in k4)"

definition update_duration ::
  "update_key_body \<Rightarrow> activation_key \<Rightarrow> exn + activation_key" where
  "update_duration d key =
     (case upd_duration_days d of
        None \<Rightarrow> Inr key
      | Some new_duration \<Rightarrow>
          (let k = key\<lparr>duration_days := new_duration\<rparr> in
           case activated_at k of
             Some a \<Rightarrow>
               if status k = ''activated''
               then (case plus_days (Naive a) new_duration of
                       Inl e \<Rightarrow> Inl e
                     | Inr t \<Rightarrow> Inr (k\<lparr>expires_at := Some (column t)\<rparr>))
               else Inr k
           | None \<Rightarrow> Inr k))"

definition update_key ::
  "env \<Rightarrow> nat \<Rightarrow> update_key_body option \<Rightarrow> timestamp \<Rightarrow> user \<Rightarrow> db
     \<Rightarrow> activation_key response \<times> db" where
  "update_key env kid data now usr s =
     (case find (\<lambda>k. key_id k = kid) (activation_keys s) of
        None \<Rightarrow> (Failure 404 KeyNotFound, s)
      | Some key \<Rightarrow>
          (case data of
             None \<Rightarrow> (Failure 400 RequestBodyRequired, s)
           | Some d \<Rightarrow>
               (let devices' = (if upd_status d = Some ''revoked''
                                then revoke_trials (user_id key) now (devices s)
                                else devices s)
                in case update_duration d (update_sale_fields env d (update_status d now key)) of
                     Inl e \<Rightarrow> (Unhandled e, s)
                   | Inr key' \<Rightarrow>
                       (Response 200 key',
                        s\<lparr>activation_keys :=
                            update_first (\<lambda>k. key_id k = kid) (\<lambda>_. key') (activation_keys s),
                          devices := devices'\<rparr>))))"

definition delete_key :: "nat \<Rightarrow> user \<Rightarrow> db \<Rightarrow> unit response \<times> db" where
  "delete_key kid usr s =
     (case find (\<lambda>k. key_id k = kid) (activation_keys s) of
        None \<Rightarrow> (Failure 404 KeyNotFound, s)
      | Some key \<Rightarrow>
          (Response 200 (),
           s\<lparr>activation_keys := delete_first (\<lambda>k. key_id k = kid) (activation_keys s)\<rparr>))"


section \<open>Registration and login (routes/auth.py)\<close>

record register_body =
  reg_email :: "string option"
  reg_password :: "string option"
  reg_device_id :: "string option"
  reg_platform :: "string option"

text \<open>
  \<open>register\<close>: \<open>now\<close> is the clock read for the trial window, \<open>now'\<close> the later read of
  the entitlement evaluation in the response, which runs after the commit. A new user is
  active and not an admin (the column defaults). The tokens of the response are the
  authenticator's and are left out.
\<close>

definition register ::
  "env \<Rightarrow> register_body option \<Rightarrow> timestamp \<Rightarrow> timestamp \<Rightarrow> db
     \<Rightarrow> (user \<times> activation_info) response \<times> db" where
  "register env data now now' s =
     (case data of
        None \<Rightarrow> (Failure 400 RequestBodyRequired, s)
      | Some d \<Rightarrow>
          (let mail = str_lower env (str_strip env (get_or (reg_email d) []));
               password = get_or (reg_password d) [];
               dev = get_or (reg_device_id d) [];
               plat = get_or (reg_platform d) ''android''
           in
           if mail = [] \<or> password = [] \<or> dev = []
             then (Failure 400 CredentialsAndDeviceRequired, s)
           else if \<not> validate_email env mail then (Failure 400 InvalidEmailFormat, s)
           else if \<not> validate_password env password then (Failure 400 PasswordTooShort, s)
           else if plat \<notin> set [''android'', ''web''] then (Failure 400 BadPlatform, s)
           else if find (\<lambda>u. email u = mail) (users s) \<noteq> None
             then (Failure 409 EmailAlreadyRegistered, s)
           else if find (\<lambda>x. device_id x = dev \<and> platform x = plat) (devices s) \<noteq> None
             then (Failure 409 TrialAlreadyUsed, s)
           else
             (let usr = \<lparr>uid = next_user_id s, email = mail,
                         password_hash = generate_password_hash env password,
                         is_active = True, is_admin = False\<rparr>;
                  s1 = s\<lparr>users := users s @ [usr], next_user_id := Suc (next_user_id s)\<rparr>
              in case plus_days (Aware now) (trial_duration_days env) of
                   Inl e \<Rightarrow> (Unhandled e, s)
                 | Inr trial_end \<Rightarrow>
                     (let device = \<lparr>dev_id = 0, dev_user_id = uid usr, device_id = dev,
                                    platform = plat,
                                    trial_started_at = Some (column (Aware now)),
                                    trial_expires_at = column trial_end,
                                    dev_created_at = Some (column (Aware now))\<rparr>
                      in case insert_device device s1 of
                           Inl e \<Rightarrow> (Unhandled e, s)
                         | Inr s2 \<Rightarrow>
                             (case get_activation_status usr now' s2 of
                                Inl e \<Rightarrow> (Unhandled e, s2)
                              | Inr info \<Rightarrow> (Response 201 (usr, info), s2))))))"

record login_body =
  login_email :: "string option"
  login_password :: "string option"
  login_device_id :: "string option"
  login_platform :: "string option"

text \<open>
  \<open>login\<close>: \<open>t1\<close> and \<open>t2\<close> are the two clock reads stored in the tracked device,
  \<open>now'\<close> the read of the entitlement evaluation, which runs after the commit.
\<close>

definition login ::
  "env \<Rightarrow> login_body option \<Rightarrow> timestamp \<Rightarrow> timestamp \<Rightarrow> timestamp \<Rightarrow> db
     \<Rightarrow> (user \<times> activation_info) response \<times> db" where
  "login env data t1 t2 now' s =
     (case data of
        None \<Rightarrow> (Failure 400 RequestBodyRequired, s)
      | Some d \<Rightarrow>
          (let mail = str_lower env (str_strip env (get_or (login_email d) []));
               password = get_or (login_password d) [];
               dev = get_or (login_device_id d) [];
               plat = get_or (login_platform d) ''android''
           in
           if mail = [] \<or> password = [] then (Failure 400 EmailAndPasswordRequired, s)
           else case find (\<lambda>u. email u = mail) (users s) of
             None \<Rightarrow> (Failure 401 InvalidEmailOrPassword, s)
           | Some usr \<Rightarrow>
               if \<not> check_password_hash env (password_hash usr) password
                 then (Failure 401 InvalidEmailOrPassword, s)
               else if \<not> is_active usr then (Failure 403 AccountDisabled, s)
               else if dev \<noteq> [] \<and> plat \<noteq> [] \<and>
                       find (\<lambda>x. dev_user_id x = uid usr \<and> device_id x = dev \<and> platform x = plat)
                         (devices s) = None
                 then
                   (let device = \<lparr>dev_id = 0, dev_user_id = uid usr, device_id = dev,
                                  platform = plat, trial_started_at = Some (column (Aware t1)),
                                  trial_expires_at = column (Aware t2),
                                  dev_created_at = Some (column (Aware t2))\<rparr>
                    in case insert_device device s of
                         Inl e \<Rightarrow> (Unhandled e, s)
                       | Inr s1 \<Rightarrow>
                           (case get_activation_status usr now' s1 of
                              Inl e \<Rightarrow> (Unhandled e, s1)
                            | Inr info \<Rightarrow> (Response 200 (usr, info), s1)))
               else
                 (case get_activation_status usr now' s of
                    Inl e \<Rightarrow> (Unhandled e, s)
                  | Inr info \<Rightarrow> (Response 200 (usr, info), s))))"

text \<open>
  The two operations that write the users table: \<open>update_user\<close> of routes/admin.py and
  the command \<open>create-admin\<close> of the application factory.
\<close>

record update_user_body =
  upd_is_active :: "bool option"
  upd_is_admin :: "bool option"
  upd_password :: "string option"

definition update_user ::
  "env \<Rightarrow> nat \<Rightarrow> update_user_body option \<Rightarrow> user \<Rightarrow> db \<Rightarrow> user response \<times> db" where
  "update_user env target_id data admin s =
     (if target_id = 1 then (Failure 404 UserNotFound, s)
      else case find (\<lambda>u. uid u = target_id) (users s) of
        None \<Rightarrow> (Failure 404 UserNotFound, s)
      | Some target \<Rightarrow>
          (case data of
             None \<Rightarrow> (Failure 400 RequestBodyRequired, s)
           | Some d \<Rightarrow>
               (let t1 = (case upd_is_active d of None \<Rightarrow> target | Some b \<Rightarrow> target\<lparr>is_active := b\<rparr>);
                    t2 = (case upd_is_admin d of None \<Rightarrow> t1 | Some b \<Rightarrow> t1\<lparr>is_admin := b\<rparr>)
                in case upd_password d of
                     None \<Rightarrow>
                       (Response 200 t2,
                        s\<lparr>users := update_first (\<lambda>u. uid u = target_id) (\<lambda>_. t2) (users s)\<rparr>)
                   | Some p \<Rightarrow>
                       (let new_password = str_strip env p in
                        if length new_password < 6 then (Failure 400 PasswordTooShort, s)
                        else
                          (let t3 = t2\<lparr>password_hash := generate_password_hash env new_password\<rparr>
                           in (Response 200 t3,
                               s\<lparr>users := update_first (\<lambda>u. uid u = target_id) (\<lambda>_. t3)
                                   (users s)\<rparr>))))))"

definition create_admin :: "env \<Rightarrow> string \<Rightarrow> string \<Rightarrow> db \<Rightarrow> db" where
  "create_admin env mail password s =
     (case find (\<lambda>u. email u = mail) (users s) of
        Some existing \<Rightarrow>
          s\<lparr>users := update_first (\<lambda>u. email u = mail) (\<lambda>_. existing\<lparr>is_admin := True\<rparr>)
               (users s)\<rparr>
      | None \<Rightarrow>
          s\<lparr>users := users s @ [\<lparr>uid = next_user_id s, email = mail,
                                  password_hash = generate_password_hash env password,
                                  is_active = True, is_admin = True\<rparr>],
            next_user_id := Suc (next_user_id s)\<rparr>)"


section \<open>Notions used in the statements\<close>

definition payload :: "'a response \<Rightarrow> 'a option" where
  "payload r = (case r of Response c x \<Rightarrow> Some x | Failure c e \<Rightarrow> None | Unhandled e \<Rightarrow> None)"

text \<open>
  The date \<open>t\<close> plus \<open>n\<close> days exists: \<open>timedelta(days=n)\<close> does, and the sum is a date of
  the years 1 to 9999.
\<close>

definition days_fit :: "timestamp \<Rightarrow> int \<Rightarrow> bool" where
  "days_fit t n =
     (- 999999999 \<le> n \<and> n \<le> 999999999 \<and> 0 \<le> t + of_days n \<and> t + of_days n \<le> DATETIME_MAX)"

text \<open>
  A sample environment. Its string methods are those of Python on ASCII text (the white
  space characters are the code points 9 to 13 and 28 to 32); the statements are evaluated
  on ASCII text only.
\<close>

definition ascii_isspace :: "char \<Rightarrow> bool" where
  "ascii_isspace c =
     (let n = (of_char c :: nat) in (9 \<le> n \<and> n \<le> 13) \<or> (28 \<le> n \<and> n \<le> 32))"

definition ascii_strip :: "string \<Rightarrow> string" where
  "ascii_strip s = rev (dropWhile ascii_isspace (rev (dropWhile ascii_isspace s)))"

definition ascii_upper :: "string \<Rightarrow> string" where
  "ascii_upper s = map (\<lambda>c. case map_of (zip ''abcdefghijklmnopqrstuvwxyz''
       ''ABCDEFGHIJKLMNOPQRSTUVWXYZ'') c of Some u \<Rightarrow> u | None \<Rightarrow> c) s"

definition ascii_lower :: "string \<Rightarrow> string" where
  "ascii_lower s = map (\<lambda>c. case map_of (zip ''ABCDEFGHIJKLMNOPQRSTUVWXYZ''
       ''abcdefghijklmnopqrstuvwxyz'') c of Some l \<Rightarrow> l | None \<Rightarrow> c) s"

definition env0 :: env where
  "env0 = \<lparr>str_strip = ascii_strip, str_upper = ascii_upper, str_lower = ascii_lower,
     validate_email = (\<lambda>e. CHR ''@'' \<in> set e),
     validate_password = (\<lambda>p. 6 \<le> length p),
     generate_password_hash = (\<lambda>p. ''#'' @ p),
     check_password_hash = (\<lambda>h p. h = ''#'' @ p),
     trial_duration_days = 3\<rparr>"

text \<open>Sample rows and stores, on which the statements are evaluated.\<close>

definition admin0 :: user where
  "admin0 = \<lparr>uid = 2, email = ''admin@example.com'', password_hash = ''h'',
     is_active = True, is_admin = True\<rparr>"

definition user3 :: user where
  "user3 = \<lparr>uid = 3, email = ''ann@example.com'', password_hash = ''h'',
     is_active = True, is_admin = False\<rparr>"

definition key1 :: activation_key where
  "key1 = \<lparr>key_id = 1, key_code = ''AAAA-BBBB-CCCC-DDDD'', duration_days = 30,
     status = ''activated'', user_id = Some 3, activated_email = Some ''ann@example.com'',
     activated_at = Some 0, expires_at = Some (of_days 30),
     sold_to_name = None, sold_to_email = None, sold_at = None, sold_price = None,
     key_notes = None, created_by = Some 2, created_at = Some 0\<rparr>"

definition dev1 :: device where
  "dev1 = \<lparr>dev_id = 1, dev_user_id = 3, device_id = ''phone-1'', platform = ''android'',
     trial_started_at = Some 0, trial_expires_at = of_days 3,
     dev_created_at = Some 0\<rparr>"

definition db1 :: db where
  "db1 = \<lparr>users = [admin0, user3], activation_keys = [key1], devices = [dev1],
     next_user_id = 4, next_key_id = 2, next_device_id = 2\<rparr>"

definition key2 :: activation_key where
  "key2 = \<lparr>key_id = 2, key_code = ''EEEE-FFFF-GGGG-HHHH'', duration_days = 0,
     status = ''available'', user_id = None, activated_email = None,
     activated_at = None, expires_at = None,
     sold_to_name = None, sold_to_email = None, sold_at = None, sold_price = None,
     key_notes = None, created_by = Some 2, created_at = Some 0\<rparr>"

definition key3 :: activation_key where
  "key3 = key2\<lparr>key_id := 3, key_code := ''JJJJ-KKKK-MMMM-NNNN'', duration_days := 7,
     status := ''sold''\<rparr>"

definition key4 :: activation_key where
  "key4 = key2\<lparr>key_id := 4, key_code := ''PPPP-QQQQ-RRRR-SSSS'', status := ''revoked''\<rparr>"

definition key5 :: activation_key where
  "key5 = key2\<lparr>key_id := 5, key_code := ''TTTT-UUUU-VVVV-WWWW'', status := ''expired''\<rparr>"

definition db2 :: db where
  "db2 = db1\<lparr>activation_keys := [key1, key2, key3, key4, key5], next_key_id := 6\<rparr>"

definition key6 :: activation_key where
  "key6 = key2\<lparr>key_id := 6, key_code := ''XXXX-YYYY-ZZZZ-2222'', duration_days := 10000000\<rparr>"

definition db4 :: db where
  "db4 = db1\<lparr>activation_keys := [key1, key6], next_key_id := 7\<rparr>"

definition key7 :: activation_key where
  "key7 = key1\<lparr>key_id := 7, key_code := ''3333-4444-5555-6666''\<rparr>"

definition db5 :: db where
  "db5 = db1\<lparr>activation_keys := [key1, key7], next_key_id := 8\<rparr>"




definition valid_registration :: "env \<Rightarrow> register_body \<Rightarrow> bool" where
  "valid_registration env d =
     (let mail = str_lower env (str_strip env (get_or (reg_email d) []));
          password = get_or (reg_password d) [];
          dev = get_or (reg_device_id d) [];
          plat = get_or (reg_platform d) ''android''
      in mail \<noteq> [] \<and> password \<noteq> [] \<and> dev \<noteq> [] \<and> validate_email env mail \<and>
         validate_password env password \<and> plat \<in> set [''android'', ''web''])"

definition rnd0 :: "nat \<Rightarrow> nat" where
  "rnd0 n = n div 4"


definition gen1 :: generate_body where
  "gen1 = \<lparr>gen_count = None, gen_duration_days = None, gen_sold_to_name = None,
     gen_sold_to_email = None, gen_sold_price = None, gen_notes = None\<rparr>"



text \<open>
  One request, or one run of the command \<open>create-admin\<close>, takes the store \<open>s\<close> to the
  store \<open>s'\<close>. The predicate \<open>ok\<close> restricts the values of \<open>duration_days\<close> that key
  generation and key update are given.
\<close>

inductive step :: "env \<Rightarrow> (int \<Rightarrow> bool) \<Rightarrow> db \<Rightarrow> db \<Rightarrow> bool"
  for env :: env and ok :: "int \<Rightarrow> bool" where
  step_register: "step env ok s (snd (register env data now now' s))"
| step_login: "step env ok s (snd (login env data t1 t2 now' s))"
| step_status: "step env ok s (snd (jwt_required_custom (status_route now) ident s))"
| step_activate: "step env ok s (snd (jwt_required_custom (activate env data now) ident s))"
| step_extend:
    "step env ok s (snd (admin_required (extend_license sel target_id data now) ident s))"
| step_assign:
    "step env ok s (snd (admin_required (assign_key target_id data now) ident s))"
| step_generate:
    "(\<And>d. data = Some d \<Longrightarrow> ok (get_or (gen_duration_days d) 365)) \<Longrightarrow>
     step env ok s (snd (admin_required (generate_keys env rnd data now) ident s))"
| step_update_key:
    "(\<And>d n. data = Some d \<Longrightarrow> upd_duration_days d = Some n \<Longrightarrow> ok n) \<Longrightarrow>
     step env ok s (snd (admin_required (update_key env kid data now) ident s))"
| step_delete_key: "step env ok s (snd (admin_required (delete_key kid) ident s))"
| step_update_user:
    "step env ok s (snd (admin_required (update_user env target_id data) ident s))"
| step_create_admin: "step env ok s (create_admin env mail password s)"

inductive reachable :: "env \<Rightarrow> (int \<Rightarrow> bool) \<Rightarrow> db \<Rightarrow> bool"
  for env :: env and ok :: "int \<Rightarrow> bool" where
  reachable_init: "reachable env ok init_db"
| reachable_step: "reachable env ok s \<Longrightarrow> step env ok s s' \<Longrightarrow> reachable env ok s'"

text \<open>
  The invariant of an activated key as the specification states it, and its part about
  the four fields alone.
\<close>

definition key_inv :: "activation_key \<Rightarrow> bool" where
  "key_inv k =
     (status k = ''activated'' \<longrightarrow>
        user_id k \<noteq> None \<and> activated_email k \<noteq> None \<and>
        (case activated_at k of
           None \<Rightarrow> False
         | Some a \<Rightarrow> (case expires_at k of None \<Rightarrow> False | Some e \<Rightarrow> a < e)))"

definition key_fields_inv :: "activation_key \<Rightarrow> bool" where
  "key_fields_inv k =
     (status k = ''activated'' \<longrightarrow>
        user_id k \<noteq> None \<and> activated_email k \<noteq> None \<and>
        activated_at k \<noteq> None \<and> expires_at k \<noteq> None)"

definition upd0 :: update_key_body where
  "upd0 = \<lparr>upd_status = None, upd_sold_to_name = None, upd_sold_to_email = None,
     upd_sold_price = None, upd_notes = None, upd_duration_days = Some 0\<rparr>"

text \<open>
  The pairs (device id, platform) of the device rows, and the user that the first row of a
  pair is bound to.
\<close>

definition device_pairs :: "db \<Rightarrow> (string \<times> string) list" where
  "device_pairs s = map (\<lambda>d. (device_id d, platform d)) (devices s)"

definition owner_of :: "db \<Rightarrow> string \<times> string \<Rightarrow> nat option" where
  "owner_of s = map_of (map (\<lambda>d. ((device_id d, platform d), dev_user_id d)) (devices s))"

text \<open>
  A run from the empty store: the first admin is created, generates a key, a user
  registers on a phone and redeems the key, a second user registers on another phone and
  then logs in from the phone of the first.
\<close>

definition ok_pos :: "int \<Rightarrow> bool" where
  "ok_pos n = (1 \<le> n)"

definition reg_ann :: register_body where
  "reg_ann = \<lparr>reg_email = Some ''ann@example.com'', reg_password = Some ''secret1'',
     reg_device_id = Some ''phone-1'', reg_platform = None\<rparr>"

definition reg_bob :: register_body where
  "reg_bob = \<lparr>reg_email = Some ''bob@example.com'', reg_password = Some ''secret2'',
     reg_device_id = Some ''phone-2'', reg_platform = Some ''android''\<rparr>"

definition login_bob :: login_body where
  "login_bob = \<lparr>login_email = Some ''bob@example.com'', login_password = Some ''secret2'',
     login_device_id = Some ''phone-1'', login_platform = None\<rparr>"

definition run0 :: db where
  "run0 = create_admin env0 ''root@example.com'' ''rootpw'' init_db"

definition run1 :: db where
  "run1 = snd (admin_required (generate_keys env0 rnd0 (Some gen1) 0) 1 run0)"

definition run2 :: db where
  "run2 = snd (register env0 (Some reg_ann) 10 11 run1)"

definition run3 :: db where
  "run3 = snd (jwt_required_custom
     (activate env0 (Some \<lparr>body_key_code = Some ''aaaa-bbbb-cccc-dddd''\<rparr>) 20) 2 run2)"

definition run4 :: db where
  "run4 = snd (register env0 (Some reg_bob) 30 31 run3)"

definition run5 :: db where
  "run5 = snd (login env0 (Some login_bob) 40 41 42 run4)"

text \<open>
  The invariant carried through the induction: with \<open>pos\<close> every key has a duration of
  at least one day and an activated key expires after its activation; without it only the
  four fields of an activated key are required.
\<close>

definition key_ok :: "bool \<Rightarrow> activation_key \<Rightarrow> bool" where
  "key_ok pos k =
     ((pos \<longrightarrow> 1 \<le> duration_days k) \<and>
      (status k = ''activated'' \<longrightarrow>
         user_id k \<noteq> None \<and> activated_email k \<noteq> None \<and>
         (\<exists>a e. activated_at k = Some a \<and> expires_at k = Some e \<and> (pos \<longrightarrow> a < e))))"


section \<open>Properties of the handlers\<close>

lemma find_member:
  "x \<in> set xs \<Longrightarrow> P x \<Longrightarrow> \<exists>y. find P xs = Some y \<and> P y \<and> y \<in> set xs"
  by (induction xs) auto

text \<open>
  The row that the query for an active key returns has an expiry, which is what both
  evaluators subtract the clock from.
\<close>

lemma active_key_query_expires:
  "find (active_key_query u now) ks = Some k \<Longrightarrow> \<exists>e. expires_at k = Some e \<and> e > now"
  by (auto simp: find_Some_iff active_key_query_def split: option.splits)

text \<open>
  The addition of days to a date gives the date when it exists, and raises otherwise.
\<close>

lemma plus_days_Naive:
  "plus_days (Naive t) n =
     (if days_fit t n then Inr (Naive (t + of_days n)) else Inl OverflowError)"
  by (auto simp: plus_days_def timedelta_days_def days_fit_def)

lemma plus_days_Aware:
  "plus_days (Aware t) n =
     (if days_fit t n then Inr (Aware (t + of_days n)) else Inl OverflowError)"
  by (auto simp: plus_days_def timedelta_days_def days_fit_def)

subsection \<open>Evaluation for an admin\<close>

text \<open>
  The evaluator of the auth responses answers \<open>active\<close> for every admin, whatever the
  keys and devices are.
\<close>

lemma get_activation_status_admin:
  "is_admin usr \<Longrightarrow> map_sum id info_status (get_activation_status usr now s) = Inr ''active''"
  by (simp add: get_activation_status_def)

text \<open>
  C1. For every admin every evaluation of the entitlement, the handler of
  \<open>GET /activation/status\<close> included, is claimed to return \<open>active\<close>. The handler has no
  admin branch: for an active admin without a key and without a device it answers
  \<open>expired\<close> with HTTP status 200 and zero days remaining, where the evaluator of the auth
  responses answers \<open>active\<close> on the same store.
\<close>

theorem status_route_admin_expired:
  "fst (jwt_required_custom (status_route 0) 2 (init_db\<lparr>users := [admin0]\<rparr>)) =
     Response 200 \<lparr>info_status = ''expired'', info_key_code = None, info_email = None,
       info_activated_at = None, info_expires_at = None, info_days_remaining = 0,
       info_hours_remaining = None\<rparr>
   \<and> is_admin admin0
   \<and> get_activation_status admin0 0 (init_db\<lparr>users := [admin0]\<rparr>) =
       Inr \<lparr>info_status = ''active'', info_key_code = None, info_email = None,
         info_activated_at = None, info_expires_at = None, info_days_remaining = 999,
         info_hours_remaining = None\<rparr>"
  by (simp add: jwt_required_custom_def status_route_def init_db_def admin0_def
      get_activation_status_def)

subsection \<open>Evaluation for a user with a key\<close>

text \<open>
  For a user who is not an admin and holds an activated key that expires after \<open>now\<close>,
  both evaluators find the key and then subtract the clock, read with a time zone, from
  the expiry, read from the column without one: the subtraction raises, and no status is
  returned.
\<close>

lemma evaluators_raise_on_key:
  assumes "\<not> is_admin usr"
    and "k \<in> set (activation_keys s)" and "user_id k = Some (uid usr)"
    and "status k = ''activated''" and "expires_at k = Some e" and "e > now"
  shows "get_activation_status usr now s = Inl TypeError \<and>
         status_route now usr s = (Unhandled TypeError, s)"
proof -
  have "active_key_query (uid usr) now k"
    using assms by (simp add: active_key_query_def)
  then obtain k' where "find (active_key_query (uid usr) now) (activation_keys s) = Some k'"
    using find_member[OF assms(2)] by blast
  then show ?thesis
    using assms(1) by (simp add: get_activation_status_def status_route_def)
qed

text \<open>
  C8. A user who is not an admin and holds an activated key that expires after \<open>now\<close>
  as well as a device whose trial expires after \<open>now\<close> is claimed to be evaluated as
  \<open>active\<close>. For the user 3 of the store \<open>db1\<close>, who holds \<open>key1\<close> and \<open>dev1\<close>, both
  at time 1, the evaluator of the auth responses raises the type error, and the handler of
  \<open>GET /activation/status\<close> ends in it and leaves the store as it is.
\<close>

theorem key_and_trial_raise:
  "\<not> is_admin user3 \<and> key1 \<in> set (activation_keys db1) \<and> dev1 \<in> set (devices db1) \<and>
   active_key_query (uid user3) 1 key1 \<and> active_trial_query (uid user3) 1 dev1 \<and>
   get_activation_status user3 1 db1 = Inl TypeError \<and>
   status_route 1 user3 db1 = (Unhandled TypeError, db1)"
  by (simp add: user3_def db1_def key1_def dev1_def active_key_query_def active_trial_query_def
      get_activation_status_def status_route_def of_days_def)

subsection \<open>Redemption\<close>

lemma update_first_keeps:
  "find P xs = Some x \<Longrightarrow> y \<in> set xs \<Longrightarrow> y \<noteq> x \<Longrightarrow> y \<in> set (update_first P f xs)"
  by (induction xs) (auto split: if_splits)

lemma update_first_puts:
  "find P xs = Some x \<Longrightarrow> f x \<in> set (update_first P f xs)"
  by (induction xs) (auto split: if_splits)

text \<open>
  C3. A redemption request whose code (stripped, in upper case) is not empty and finds the
  key \<open>key\<close> fails, whoever the caller is, with 409 when the key is activated, with 409
  when it is revoked, and with 400 when its status is none of available, sold, activated,
  revoked; in each case the store, and so the key's row, is the one before the request.
\<close>

theorem activate_rejects_used_key:
  assumes "str_upper env (str_strip env (get_or (body_key_code d) [])) = code" and "code \<noteq> []"
    and "find (\<lambda>k. key_code k = code) (activation_keys s) = Some key"
  shows "(status key = ''activated'' \<longrightarrow>
            activate env (Some d) now usr s = (Failure 409 AlreadyActivated, s)) \<and>
         (status key = ''revoked'' \<longrightarrow>
            activate env (Some d) now usr s = (Failure 409 KeyRevoked, s)) \<and>
         (status key \<notin> {''available'', ''sold'', ''activated'', ''revoked''} \<longrightarrow>
            activate env (Some d) now usr s = (Failure 400 CannotBeActivated, s))"
  using assms by (simp add: activate_def Let_def)

lemma env0_normalisers:
  "str_strip env0 = ascii_strip" "str_upper env0 = ascii_upper" "str_lower env0 = ascii_lower"
  by (simp_all add: env0_def)

theorem activate_rejects_used_key_witness:
  "activate env0 (Some \<lparr>body_key_code = Some '' aaaa-bbbb-cccc-dddd ''\<rparr>) 5 admin0 db2 =
     (Failure 409 AlreadyActivated, db2) \<and>
   activate env0 (Some \<lparr>body_key_code = Some ''PPPP-QQQQ-RRRR-SSSS''\<rparr>) 5 user3 db2 =
     (Failure 409 KeyRevoked, db2) \<and>
   activate env0 (Some \<lparr>body_key_code = Some ''TTTT-UUUU-VVVV-WWWW''\<rparr>) 5 user3 db2 =
     (Failure 400 CannotBeActivated, db2)"
  using activate_rejects_used_key
      [of env0 "\<lparr>body_key_code = Some '' aaaa-bbbb-cccc-dddd ''\<rparr>" "''AAAA-BBBB-CCCC-DDDD''"
        db2 key1 5 admin0]
    activate_rejects_used_key
      [of env0 "\<lparr>body_key_code = Some ''PPPP-QQQQ-RRRR-SSSS''\<rparr>" "''PPPP-QQQQ-RRRR-SSSS''"
        db2 key4 5 user3]
    activate_rejects_used_key
      [of env0 "\<lparr>body_key_code = Some ''TTTT-UUUU-VVVV-WWWW''\<rparr>" "''TTTT-UUUU-VVVV-WWWW''"
        db2 key5 5 user3]
  by (simp add: env0_normalisers ascii_upper_def ascii_strip_def ascii_isspace_def get_or_def
      db2_def db1_def key1_def key2_def key3_def key4_def key5_def)

text \<open>
  C2, as the code has it. A user holds an activated key \<open>k1\<close> that expires after \<open>now\<close>
  and redeems a second key \<open>k2\<close> that is available or sold, whose \<open>duration_days\<close> is
  at least 1 and for which \<open>now\<close> plus \<open>duration_days\<close> days is a date that exists: the
  request succeeds with 200, and afterwards the table holds \<open>k1\<close> and the redeemed row of
  \<open>k2\<close>, both activated, both of this user, both expiring after \<open>now\<close>.
\<close>

theorem redeem_second_key:
  assumes "k1 \<in> set (activation_keys s)" and "user_id k1 = Some (uid usr)"
    and "status k1 = ''activated''" and "expires_at k1 = Some e1" and "now < e1"
    and "str_upper env (str_strip env (get_or (body_key_code d) [])) = code" and "code \<noteq> []"
    and "find (\<lambda>k. key_code k = code) (activation_keys s) = Some k2"
    and "status k2 = ''available'' \<or> status k2 = ''sold''"
    and "1 \<le> duration_days k2" and "days_fit now (duration_days k2)"
  shows "\<exists>info s' k2'. activate env (Some d) now usr s = (Response 200 info, s') \<and>
           k1 \<in> set (activation_keys s') \<and> k2' \<in> set (activation_keys s') \<and>
           key_id k2' = key_id k2 \<and> key_code k2' = key_code k2 \<and>
           active_key_query (uid usr) now k1 \<and> active_key_query (uid usr) now k2'"
proof -
  let ?k2' = "k2\<lparr>user_id := Some (uid usr), activated_email := Some (email usr),
                 activated_at := Some now,
                 expires_at := Some (now + of_days (duration_days k2)),
                 status := ''activated''\<rparr>"
  let ?ks = "update_first (\<lambda>k. key_code k = code) (\<lambda>_. ?k2') (activation_keys s)"
  have ne: "k1 \<noteq> k2" using assms(3,9) by auto
  have a: "k1 \<in> set ?ks" using update_first_keeps[OF assms(8) assms(1) ne] .
  have b: "?k2' \<in> set ?ks" using update_first_puts[OF assms(8)] .
  have c: "active_key_query (uid usr) now k1" using assms by (simp add: active_key_query_def)
  have d: "active_key_query (uid usr) now ?k2'" using assms(10)
    by (simp add: active_key_query_def of_days_def)
  have e: "snd (activate env (Some d) now usr s) = s\<lparr>activation_keys := ?ks\<rparr>"
    using assms(6-9,11) by (auto simp add: activate_def Let_def plus_days_Aware)
  have "\<exists>info. fst (activate env (Some d) now usr s) = Response 200 info"
    using assms(6-9,11) by (auto simp add: activate_def Let_def plus_days_Aware)
  then obtain info where "fst (activate env (Some d) now usr s) = Response 200 info" by blast
  then have "activate env (Some d) now usr s = (Response 200 info, s\<lparr>activation_keys := ?ks\<rparr>)"
    using e by (metis prod.collapse)
  then show ?thesis using a b c d
    by (intro exI[of _ info] exI[of _ "s\<lparr>activation_keys := ?ks\<rparr>"] exI[of _ ?k2']) simp
qed

theorem redeem_second_key_witness:
  "\<exists>info s' k2'.
     activate env0 (Some \<lparr>body_key_code = Some ''jjjj-kkkk-mmmm-nnnn''\<rparr>) 5 user3 db2 =
       (Response 200 info, s') \<and>
     key1 \<in> set (activation_keys s') \<and> k2' \<in> set (activation_keys s') \<and>
     key_id k2' = key_id key3 \<and> key_code k2' = key_code key3 \<and>
     active_key_query (uid user3) 5 key1 \<and> active_key_query (uid user3) 5 k2'"
  by (rule redeem_second_key [where code = "''JJJJ-KKKK-MMMM-NNNN''"
        and ?e1.0 = "of_days 30"])
    (simp_all add: env0_normalisers ascii_upper_def ascii_strip_def ascii_isspace_def get_or_def
      db2_def db1_def key1_def key2_def key3_def key4_def key5_def user3_def of_days_def
      days_fit_def DATETIME_MAX_def)

text \<open>
  C2 as stated fails for a second key whose \<open>duration_days\<close> is 0: user 3 holds the
  activated \<open>key1\<close> and redeems the available \<open>key2\<close> at time 5. The request succeeds, the
  redeemed key expires at time 5, and \<open>key1\<close> is the only key of the user that is
  activated and expires after the time of the request. It fails as well for the available
  \<open>key6\<close>, whose 10000000 days lead beyond the year 9999: the addition raises, and the
  key stays available.
\<close>

theorem redeem_zero_duration_counterexample:
  "fst (activate env0 (Some \<lparr>body_key_code = Some ''EEEE-FFFF-GGGG-HHHH''\<rparr>) 5 user3 db2) =
     Response 200 \<lparr>info_status = ''active'', info_key_code = Some ''EEEE-FFFF-GGGG-HHHH'',
       info_email = Some ''ann@example.com'', info_activated_at = Some 5,
       info_expires_at = Some 5, info_days_remaining = 0, info_hours_remaining = None\<rparr> \<and>
   activation_keys
     (snd (activate env0 (Some \<lparr>body_key_code = Some ''EEEE-FFFF-GGGG-HHHH''\<rparr>) 5 user3 db2)) =
     [key1, key2\<lparr>user_id := Some 3, activated_email := Some ''ann@example.com'',
        activated_at := Some 5, expires_at := Some 5, status := ''activated''\<rparr>,
      key3, key4, key5] \<and>
   filter (active_key_query 3 5)
     (activation_keys
        (snd (activate env0 (Some \<lparr>body_key_code = Some ''EEEE-FFFF-GGGG-HHHH''\<rparr>) 5 user3 db2))) =
     [key1] \<and>
   activate env0 (Some \<lparr>body_key_code = Some ''XXXX-YYYY-ZZZZ-2222''\<rparr>) 5 user3 db4 =
     (Unhandled OverflowError, db4)"
  by (simp add: activate_def Let_def env0_normalisers ascii_upper_def ascii_strip_def
      ascii_isspace_def get_or_def db2_def db4_def db1_def key1_def key2_def key3_def key4_def
      key5_def key6_def user3_def active_key_query_def plus_days_Aware days_fit_def of_days_def
      DATETIME_MAX_def)

subsection \<open>Extension\<close>

lemma first_of_SomeD: "first_of sel P xs = Some x \<Longrightarrow> x \<in> set xs \<and> P x"
proof -
  assume a: "first_of sel P xs = Some x"
  then obtain y ys where f: "filter P xs = y # ys"
    by (auto simp: first_of_def split: list.splits)
  with a have "x = (y # ys) ! (sel mod length (y # ys))" by (simp add: first_of_def)
  moreover have "sel mod length (y # ys) < length (y # ys)" by simp
  ultimately have "x \<in> set (y # ys)" using nth_mem by blast
  then have "x \<in> set (filter P xs)" using f by simp
  then show ?thesis by simp
qed

lemma first_of_None_iff: "first_of sel P xs = None \<longleftrightarrow> (\<forall>x\<in>set xs. \<not> P x)"
proof (cases "filter P xs")
  case Nil
  then show ?thesis by (simp add: first_of_def filter_empty_conv)
next
  case (Cons y ys)
  then have "y \<in> set (filter P xs)" by simp
  then have "y \<in> set xs \<and> P y" by simp
  then show ?thesis using Cons by (auto simp: first_of_def)
qed

lemma extended_additive:
  "expires_at key = Some e \<Longrightarrow> now < e \<Longrightarrow> days_fit e n \<Longrightarrow>
     extended key n now =
       Inr (key\<lparr>expires_at := Some (e + of_days n), duration_days := duration_days key + n\<rparr>)"
  by (simp add: extended_def plus_days_Naive Let_def)

lemma extended_restart:
  "expires_at key = Some e \<Longrightarrow> e \<le> now \<Longrightarrow> days_fit now n \<Longrightarrow>
     extended key n now =
       Inr (key\<lparr>activated_at := Some now, expires_at := Some (now + of_days n),
                duration_days := n\<rparr>)"
  by (simp add: extended_def plus_days_Naive Let_def)

lemma days_fit_int32: "days_fit t n \<Longrightarrow> int32 n"
  by (simp add: days_fit_def int32_def)

text \<open>
  C5, as the code has it. Extending by \<open>n\<close> \<ge> 1 days the licence of an existing user
  other than user 1, where \<open>key\<close> is the activated key of the user that the query returns
  (with several activated keys, the one the store chooses). When \<open>key\<close> expires after
  \<open>now\<close>, its expiry plus \<open>n\<close> days is a date that exists and the new duration fits the
  column, the expiry moves forward by \<open>n\<close> days and \<open>duration_days\<close> grows by \<open>n\<close>. When
  it expires at or before \<open>now\<close> and \<open>now\<close> plus \<open>n\<close> days is a date that exists,
  \<open>activated_at\<close> becomes \<open>now\<close>, the expiry \<open>now\<close> plus \<open>n\<close> days and \<open>duration_days\<close>
  becomes \<open>n\<close>. Only the row with the primary key of \<open>key\<close> changes. The request fails
  with the no-activated-key error exactly when no key of the user has the status activated,
  whatever the expiry.
\<close>

theorem extend_license_effect:
  assumes "target_id \<noteq> 1" and "find (\<lambda>u. uid u = target_id) (users s) = Some target"
    and "1 \<le> n"
  shows "(\<forall>key e. first_of sel (\<lambda>k. user_id k = Some target_id \<and> status k = ''activated'')
                     (activation_keys s) = Some key \<longrightarrow>
                   expires_at key = Some e \<longrightarrow> now < e \<longrightarrow>
                   days_fit e n \<longrightarrow> int32 (duration_days key + n) \<longrightarrow>
            extend_license sel target_id (Some \<lparr>ext_days = Some n\<rparr>) now admin s =
              (Response 200 (key\<lparr>expires_at := Some (e + of_days n),
                                 duration_days := duration_days key + n\<rparr>),
               s\<lparr>activation_keys :=
                   update_row (key\<lparr>expires_at := Some (e + of_days n),
                                   duration_days := duration_days key + n\<rparr>)
                     (activation_keys s)\<rparr>)) \<and>
         (\<forall>key e. first_of sel (\<lambda>k. user_id k = Some target_id \<and> status k = ''activated'')
                     (activation_keys s) = Some key \<longrightarrow>
                   expires_at key = Some e \<longrightarrow> e \<le> now \<longrightarrow> days_fit now n \<longrightarrow>
            extend_license sel target_id (Some \<lparr>ext_days = Some n\<rparr>) now admin s =
              (Response 200 (key\<lparr>activated_at := Some now,
                                 expires_at := Some (now + of_days n),
                                 duration_days := n\<rparr>),
               s\<lparr>activation_keys :=
                   update_row (key\<lparr>activated_at := Some now,
                                   expires_at := Some (now + of_days n),
                                   duration_days := n\<rparr>)
                     (activation_keys s)\<rparr>)) \<and>
         (fst (extend_license sel target_id (Some \<lparr>ext_days = Some n\<rparr>) now admin s) =
            Failure 404 NoActivatedKey \<longleftrightarrow>
          (\<forall>k \<in> set (activation_keys s). \<not> (user_id k = Some target_id \<and> status k = ''activated'')))"
proof -
  let ?q = "\<lambda>k. user_id k = Some target_id \<and> status k = ''activated''"
  let ?run = "extend_license sel target_id (Some \<lparr>ext_days = Some n\<rparr>) now admin s"
  have pre: "n \<noteq> 0" "\<not> n < 1" using assms(3) by auto
  have unfold: "?run =
      (case first_of sel ?q (activation_keys s) of
         None \<Rightarrow> (Failure 404 NoActivatedKey, s)
       | Some key \<Rightarrow>
           (case extended key n now of
              Inl e \<Rightarrow> (Unhandled e, s)
            | Inr key' \<Rightarrow>
                if \<not> int32 (duration_days key') then (Unhandled DataError, s)
                else (Response 200 key',
                      s\<lparr>activation_keys := update_row key' (activation_keys s)\<rparr>)))"
    using assms(1,2) pre by (simp add: extend_license_def get_or_def)
  have a: "\<forall>key e. first_of sel ?q (activation_keys s) = Some key \<longrightarrow>
                   expires_at key = Some e \<longrightarrow> now < e \<longrightarrow>
                   days_fit e n \<longrightarrow> int32 (duration_days key + n) \<longrightarrow>
            ?run =
              (Response 200 (key\<lparr>expires_at := Some (e + of_days n),
                                 duration_days := duration_days key + n\<rparr>),
               s\<lparr>activation_keys :=
                   update_row (key\<lparr>expires_at := Some (e + of_days n),
                                   duration_days := duration_days key + n\<rparr>)
                     (activation_keys s)\<rparr>)"
    unfolding unfold by (simp add: extended_additive)
  have b: "\<forall>key e. first_of sel ?q (activation_keys s) = Some key \<longrightarrow>
                   expires_at key = Some e \<longrightarrow> e \<le> now \<longrightarrow> days_fit now n \<longrightarrow>
            ?run =
              (Response 200 (key\<lparr>activated_at := Some now,
                                 expires_at := Some (now + of_days n),
                                 duration_days := n\<rparr>),
               s\<lparr>activation_keys :=
                   update_row (key\<lparr>activated_at := Some now,
                                   expires_at := Some (now + of_days n),
                                   duration_days := n\<rparr>)
                     (activation_keys s)\<rparr>)"
    unfolding unfold by (simp add: extended_restart days_fit_int32)
  have c: "fst ?run = Failure 404 NoActivatedKey \<longleftrightarrow> (\<forall>k \<in> set (activation_keys s). \<not> ?q k)"
  proof (cases "first_of sel ?q (activation_keys s)")
    case None
    have "\<forall>k \<in> set (activation_keys s). \<not> ?q k"
      using None unfolding first_of_None_iff by blast
    moreover have "fst ?run = Failure 404 NoActivatedKey"
      unfolding unfold by (simp add: None)
    ultimately show ?thesis by blast
  next
    case (Some key)
    then have "key \<in> set (activation_keys s) \<and> ?q key"
      using first_of_SomeD by fastforce
    moreover have "fst ?run \<noteq> Failure 404 NoActivatedKey"
      unfolding unfold by (simp add: Some split: sum.splits)
    ultimately show ?thesis by blast
  qed
  show ?thesis using a b c by blast
qed

theorem extend_license_effect_witness:
  "extend_license 0 3 (Some \<lparr>ext_days = Some 10\<rparr>) 5 admin0 db1 =
     (Response 200 (key1\<lparr>expires_at := Some (of_days 40), duration_days := 40\<rparr>),
      db1\<lparr>activation_keys := [key1\<lparr>expires_at := Some (of_days 40), duration_days := 40\<rparr>]\<rparr>) \<and>
   extend_license 0 3 (Some \<lparr>ext_days = Some 10\<rparr>) (of_days 31) admin0 db1 =
     (Response 200 (key1\<lparr>activated_at := Some (of_days 31),
                       expires_at := Some (of_days 41), duration_days := 10\<rparr>),
      db1\<lparr>activation_keys := [key1\<lparr>activated_at := Some (of_days 31),
                       expires_at := Some (of_days 41), duration_days := 10\<rparr>]\<rparr>) \<and>
   fst (extend_license 0 2 (Some \<lparr>ext_days = Some 10\<rparr>) 5 admin0 db1) =
     Failure 404 NoActivatedKey \<and>
   extend_license 1 3 (Some \<lparr>ext_days = Some 10\<rparr>) 5 admin0 db5 =
     (Response 200 (key7\<lparr>expires_at := Some (of_days 40), duration_days := 40\<rparr>),
      db5\<lparr>activation_keys := [key1, key7\<lparr>expires_at := Some (of_days 40), duration_days := 40\<rparr>]\<rparr>)"
  using extend_license_effect [of 3 db1 user3 10 0 5 admin0]
    extend_license_effect [of 3 db1 user3 10 0 "of_days 31" admin0]
    extend_license_effect [of 2 db1 admin0 10 0 5 admin0]
    extend_license_effect [of 3 db5 user3 10 1 5 admin0]
  by (simp add: db1_def db5_def key1_def key7_def user3_def admin0_def of_days_def first_of_def
      update_row_def days_fit_def int32_def DATETIME_MAX_def)

text \<open>
  C5 as stated fails for a number of days that leads beyond the year 9999: the extension
  of \<open>key1\<close>, which expires after time 5, by 4000000 days raises in the addition, and the
  store is the one before.
\<close>

theorem extend_overflow_counterexample:
  "extend_license 0 3 (Some \<lparr>ext_days = Some 4000000\<rparr>) 5 admin0 db1 =
     (Unhandled OverflowError, db1)"
  by (simp add: extend_license_def extended_def get_or_def first_of_def db1_def key1_def
      user3_def admin0_def plus_days_Naive days_fit_def of_days_def DATETIME_MAX_def Let_def)

subsection \<open>Revocation\<close>

lemma update_sale_fields_keeps:
  "status (update_sale_fields env d k) = status k"
  "user_id (update_sale_fields env d k) = user_id k"
  "activated_email (update_sale_fields env d k) = activated_email k"
  "activated_at (update_sale_fields env d k) = activated_at k"
  "expires_at (update_sale_fields env d k) = expires_at k"
  "key_id (update_sale_fields env d k) = key_id k"
  "key_code (update_sale_fields env d k) = key_code k"
  "duration_days (update_sale_fields env d k) = duration_days k"
  "sold_at (update_sale_fields env d k) = sold_at k"
  by (simp_all add: update_sale_fields_def Let_def split: option.split)







subsection \<open>Trial registration for a known device\<close>

text \<open>
  C7. A registration request for a pair (device id, platform) that a device row already
  has, whoever asks: the store is unchanged, so no row is created and the existing row
  keeps its trial window. A request that passes the checks of its form is answered 409
  (the email is taken, or else the trial has been used); one that does not is answered
  400; it fails as well.
\<close>

theorem register_existing_device:
  assumes "x \<in> set (devices s)" and "get_or (reg_device_id d) [] = device_id x"
    and "get_or (reg_platform d) ''android'' = platform x"
  shows "snd (register env (Some d) now now' s) = s \<and>
         (valid_registration env d \<longrightarrow>
            fst (register env (Some d) now now' s) =
              (if find (\<lambda>u. email u = str_lower env (str_strip env (get_or (reg_email d) [])))
                    (users s) \<noteq> None
               then Failure 409 EmailAlreadyRegistered else Failure 409 TrialAlreadyUsed)) \<and>
         (\<not> valid_registration env d \<longrightarrow>
            (\<exists>e. fst (register env (Some d) now now' s) = Failure 400 e))"
proof -
  have "\<exists>y. find (\<lambda>y. device_id y = device_id x \<and> platform y = platform x) (devices s) = Some y"
    using find_member[OF assms(1), of "\<lambda>y. device_id y = device_id x \<and> platform y = platform x"]
    by auto
  then show ?thesis using assms(2,3)
    by (auto simp add: register_def valid_registration_def Let_def)
qed

theorem register_existing_device_witness:
  "register env0 (Some \<lparr>reg_email = Some ''Bob@Example.com '', reg_password = Some ''secret1'',
       reg_device_id = Some ''phone-1'', reg_platform = None\<rparr>) 7 8 db1 =
     (Failure 409 TrialAlreadyUsed, db1)"
  using register_existing_device [of dev1 db1
      "\<lparr>reg_email = Some ''Bob@Example.com '', reg_password = Some ''secret1'',
        reg_device_id = Some ''phone-1'', reg_platform = None\<rparr>" env0 7 8]
  by (simp add: valid_registration_def env0_def db1_def dev1_def user3_def admin0_def get_or_def
      ascii_lower_def ascii_strip_def ascii_isspace_def prod_eq_iff)

subsection \<open>Batch generation of keys\<close>










subsection \<open>The invariant of activated keys\<close>

lemma set_update_first:
  "set (update_first P f xs) \<subseteq> set xs \<union> (case find P xs of None \<Rightarrow> {} | Some x \<Rightarrow> {f x})"
  by (induction xs) auto

lemma update_first_all:
  assumes "\<forall>x\<in>set xs. Q x" and "\<And>x. find P xs = Some x \<Longrightarrow> Q (f x)"
  shows "\<forall>x\<in>set (update_first P f xs). Q x"
proof
  fix x assume "x \<in> set (update_first P f xs)"
  with set_update_first[of P f xs]
  have "x \<in> set xs \<or> (\<exists>y. find P xs = Some y \<and> x = f y)"
    by (auto split: option.splits)
  with assms show "Q x" by auto
qed

lemma update_row_all:
  assumes "\<forall>x\<in>set ks. Q x" and "Q key'"
  shows "\<forall>x\<in>set (update_row key' ks). Q x"
  using assms by (auto simp: update_row_def)

lemma set_delete_first: "set (delete_first P xs) \<subseteq> set xs"
  by (induction xs) auto

lemma find_SomeD: "find P xs = Some x \<Longrightarrow> x \<in> set xs \<and> P x"
  by (auto simp: find_Some_iff)

lemma jwt_required_custom_snd:
  "snd (jwt_required_custom fn ident s) = s \<or>
   (\<exists>u. snd (jwt_required_custom fn ident s) = snd (fn u s))"
  by (auto simp: jwt_required_custom_def split: option.splits)

lemma admin_required_snd:
  "snd (admin_required fn ident s) = s \<or>
   (\<exists>u. snd (admin_required fn ident s) = snd (fn u s))"
  by (auto simp: admin_required_def split: option.splits)

lemma key_ok_redeemed:
  assumes "key_ok pos key"
  shows "key_ok pos (key\<lparr>user_id := Some u, activated_email := Some m, activated_at := Some now,
           expires_at := Some (now + of_days (duration_days key)),
           status := ''activated''\<rparr>)"
  using assms by (auto simp: key_ok_def of_days_def)

lemma activate_snd:
  "snd (activate env data now usr s) = s \<or>
   (\<exists>code key. find (\<lambda>k. key_code k = code) (activation_keys s) = Some key \<and>
      snd (activate env data now usr s) =
        s\<lparr>activation_keys :=
            update_first (\<lambda>k. key_code k = code)
              (\<lambda>_. key\<lparr>user_id := Some (uid usr), activated_email := Some (email usr),
                        activated_at := Some now,
                        expires_at := Some (now + of_days (duration_days key)),
                        status := ''activated''\<rparr>)
              (activation_keys s)\<rparr>)"
proof (cases data)
  case None
  then show ?thesis by (simp add: activate_def)
next
  case (Some d)
  define code where "code = str_upper env (str_strip env (get_or (body_key_code d) []))"
  show ?thesis
  proof (cases "find (\<lambda>k. key_code k = code) (activation_keys s)")
    case None
    then show ?thesis using Some by (simp add: activate_def Let_def code_def[symmetric])
  next
    case k: (Some key)
    show ?thesis
    proof (cases "days_fit now (duration_days key)")
      case True
      then have "snd (activate env data now usr s) = s \<or>
        snd (activate env data now usr s) =
        s\<lparr>activation_keys :=
            update_first (\<lambda>k. key_code k = code)
              (\<lambda>_. key\<lparr>user_id := Some (uid usr), activated_email := Some (email usr),
                        activated_at := Some now,
                        expires_at := Some (now + of_days (duration_days key)),
                        status := ''activated''\<rparr>)
              (activation_keys s)\<rparr>"
        using Some k by (simp add: activate_def Let_def code_def[symmetric] plus_days_Aware)
      then show ?thesis using k by blast
    next
      case False
      then show ?thesis using Some k
        by (simp add: activate_def Let_def code_def[symmetric] plus_days_Aware)
    qed
  qed
qed

lemma activate_keys_ok:
  assumes "\<forall>k\<in>set (activation_keys s). key_ok pos k"
  shows "\<forall>k\<in>set (activation_keys (snd (activate env data now usr s))). key_ok pos k"
  using activate_snd[of env data now usr s]
proof
  assume "snd (activate env data now usr s) = s"
  then show ?thesis using assms by simp
next
  assume "\<exists>code key. find (\<lambda>k. key_code k = code) (activation_keys s) = Some key \<and>
      snd (activate env data now usr s) =
        s\<lparr>activation_keys :=
            update_first (\<lambda>k. key_code k = code)
              (\<lambda>_. key\<lparr>user_id := Some (uid usr), activated_email := Some (email usr),
                        activated_at := Some now,
                        expires_at := Some (now + of_days (duration_days key)),
                        status := ''activated''\<rparr>)
              (activation_keys s)\<rparr>"
  then obtain code key where
    key: "find (\<lambda>k. key_code k = code) (activation_keys s) = Some key" and
    s': "snd (activate env data now usr s) =
        s\<lparr>activation_keys :=
            update_first (\<lambda>k. key_code k = code)
              (\<lambda>_. key\<lparr>user_id := Some (uid usr), activated_email := Some (email usr),
                        activated_at := Some now,
                        expires_at := Some (now + of_days (duration_days key)),
                        status := ''activated''\<rparr>)
              (activation_keys s)\<rparr>" by blast
  have "key_ok pos key" using find_SomeD[OF key] assms by blast
  from key_ok_redeemed[OF this]
  have "\<forall>k\<in>set (update_first (\<lambda>k. key_code k = code)
              (\<lambda>_. key\<lparr>user_id := Some (uid usr), activated_email := Some (email usr),
                        activated_at := Some now,
                        expires_at := Some (now + of_days (duration_days key)),
                        status := ''activated''\<rparr>)
              (activation_keys s)). key_ok pos k"
    using key by (intro update_first_all[OF assms]) auto
  then show ?thesis unfolding s' by simp
qed

lemma assign_key_snd:
  "snd (assign_key target_id data now admin s) = s \<or>
   (\<exists>kid key (target::user). find (\<lambda>k. key_id k = kid) (activation_keys s) = Some key \<and>
      snd (assign_key target_id data now admin s) =
        s\<lparr>activation_keys :=
            update_first (\<lambda>k. key_id k = kid)
              (\<lambda>_. key\<lparr>user_id := Some (uid target), activated_email := Some (email target),
                        activated_at := Some now,
                        expires_at := Some (now + of_days (duration_days key)),
                        status := ''activated''\<rparr>)
              (activation_keys s)\<rparr>)"
proof (cases "target_id = 1")
  case True
  then show ?thesis by (simp add: assign_key_def)
next
  case nt: False
  show ?thesis
  proof (cases "find (\<lambda>u. uid u = target_id) (users s)")
    case None
    then show ?thesis using nt by (simp add: assign_key_def)
  next
    case tg: (Some target)
    show ?thesis
    proof (cases data)
      case None
      then show ?thesis using nt tg by (simp add: assign_key_def)
    next
      case d: (Some d)
      show ?thesis
      proof (cases "asg_key_id d")
        case None
        then show ?thesis using nt tg d by (simp add: assign_key_def)
      next
        case kid: (Some kid)
        show ?thesis
        proof (cases "find (\<lambda>k. key_id k = kid) (activation_keys s)")
          case None
          then show ?thesis using nt tg d kid by (simp add: assign_key_def)
        next
          case k: (Some key)
          show ?thesis
          proof (cases "days_fit now (duration_days key)")
            case True
            then have "snd (assign_key target_id data now admin s) = s \<or>
              snd (assign_key target_id data now admin s) =
              s\<lparr>activation_keys :=
                  update_first (\<lambda>k. key_id k = kid)
                    (\<lambda>_. key\<lparr>user_id := Some (uid target), activated_email := Some (email target),
                              activated_at := Some now,
                              expires_at := Some (now + of_days (duration_days key)),
                              status := ''activated''\<rparr>)
                    (activation_keys s)\<rparr>"
              using nt tg d kid k by (simp add: assign_key_def Let_def plus_days_Naive)
            then show ?thesis using k by blast
          next
            case False
            then show ?thesis using nt tg d kid k
              by (simp add: assign_key_def Let_def plus_days_Naive)
          qed
        qed
      qed
    qed
  qed
qed

lemma assign_key_keys_ok:
  assumes "\<forall>k\<in>set (activation_keys s). key_ok pos k"
  shows "\<forall>k\<in>set (activation_keys (snd (assign_key target_id data now admin s))). key_ok pos k"
  using assign_key_snd[of target_id data now admin s]
proof
  assume "snd (assign_key target_id data now admin s) = s"
  then show ?thesis using assms by simp
next
  assume "\<exists>kid key (target::user). find (\<lambda>k. key_id k = kid) (activation_keys s) = Some key \<and>
      snd (assign_key target_id data now admin s) =
        s\<lparr>activation_keys :=
            update_first (\<lambda>k. key_id k = kid)
              (\<lambda>_. key\<lparr>user_id := Some (uid target), activated_email := Some (email target),
                        activated_at := Some now,
                        expires_at := Some (now + of_days (duration_days key)),
                        status := ''activated''\<rparr>)
              (activation_keys s)\<rparr>"
  then obtain kid key and target :: user where
    key: "find (\<lambda>k. key_id k = kid) (activation_keys s) = Some key" and
    s': "snd (assign_key target_id data now admin s) =
        s\<lparr>activation_keys :=
            update_first (\<lambda>k. key_id k = kid)
              (\<lambda>_. key\<lparr>user_id := Some (uid target), activated_email := Some (email target),
                        activated_at := Some now,
                        expires_at := Some (now + of_days (duration_days key)),
                        status := ''activated''\<rparr>)
              (activation_keys s)\<rparr>" by blast
  have "key_ok pos key" using find_SomeD[OF key] assms by blast
  from key_ok_redeemed[OF this]
  have "\<forall>k\<in>set (update_first (\<lambda>k. key_id k = kid)
              (\<lambda>_. key\<lparr>user_id := Some (uid target), activated_email := Some (email target),
                        activated_at := Some now,
                        expires_at := Some (now + of_days (duration_days key)),
                        status := ''activated''\<rparr>)
              (activation_keys s)). key_ok pos k"
    using key by (intro update_first_all[OF assms]) auto
  then show ?thesis unfolding s' by simp
qed

lemma extended_key_ok:
  assumes "key_ok pos key" and "status key = ''activated''" and "1 \<le> n"
    and "extended key n now = Inr key'"
  shows "key_ok pos key'"
proof -
  have pos: "0 < of_days n" using assms(3) by (simp add: of_days_def)
  show ?thesis
  proof (cases "expires_at key")
    case None
    then show ?thesis using assms pos
      by (auto simp: extended_def Let_def plus_days_Naive key_ok_def split: if_splits)
  next
    case (Some e)
    then show ?thesis using assms pos
      by (auto simp: extended_def Let_def plus_days_Naive key_ok_def split: if_splits)
  qed
qed

lemma extend_license_snd:
  "snd (extend_license sel target_id data now admin s) = s \<or>
   (\<exists>key key' n. first_of sel (\<lambda>k. user_id k = Some target_id \<and> status k = ''activated'')
        (activation_keys s) = Some key \<and> 1 \<le> n \<and> extended key n now = Inr key' \<and>
      snd (extend_license sel target_id data now admin s) =
        s\<lparr>activation_keys := update_row key' (activation_keys s)\<rparr>)"
proof (cases "target_id = 1")
  case True
  then show ?thesis by (simp add: extend_license_def)
next
  case nt: False
  show ?thesis
  proof (cases "find (\<lambda>u. uid u = target_id) (users s)")
    case None
    then show ?thesis using nt by (simp add: extend_license_def)
  next
    case tg: (Some target)
    show ?thesis
    proof (cases data)
      case None
      then show ?thesis using nt tg by (simp add: extend_license_def)
    next
      case d: (Some d)
      define n where "n = get_or (ext_days d) 0"
      show ?thesis
      proof (cases "n = 0 \<or> n < 1")
        case True
        then show ?thesis using nt tg d by (simp add: extend_license_def n_def)
      next
        case dv: False
        then have d1: "1 \<le> n" by simp
        show ?thesis
        proof (cases "first_of sel (\<lambda>k. user_id k = Some target_id \<and> status k = ''activated'')
                        (activation_keys s)")
          case None
          then show ?thesis using nt tg d dv by (simp add: extend_license_def n_def)
        next
          case k: (Some key)
          show ?thesis
          proof (cases "extended key n now")
            case (Inl e)
            then show ?thesis using nt tg d dv k
              by (simp add: extend_license_def n_def[symmetric] Let_def)
          next
            case (Inr key')
            then have "snd (extend_license sel target_id data now admin s) = s \<or>
                snd (extend_license sel target_id data now admin s) =
                  s\<lparr>activation_keys := update_row key' (activation_keys s)\<rparr>"
              using nt tg d dv k by (simp add: extend_license_def n_def[symmetric] Let_def)
            then show ?thesis using k d1 Inr by blast
          qed
        qed
      qed
    qed
  qed
qed

lemma extend_license_keys_ok:
  assumes "\<forall>k\<in>set (activation_keys s). key_ok pos k"
  shows "\<forall>k\<in>set (activation_keys (snd (extend_license sel target_id data now admin s))).
           key_ok pos k"
  using extend_license_snd[of sel target_id data now admin s]
proof
  assume "snd (extend_license sel target_id data now admin s) = s"
  then show ?thesis using assms by simp
next
  assume "\<exists>key key' n. first_of sel (\<lambda>k. user_id k = Some target_id \<and> status k = ''activated'')
        (activation_keys s) = Some key \<and> 1 \<le> n \<and> extended key n now = Inr key' \<and>
      snd (extend_license sel target_id data now admin s) =
        s\<lparr>activation_keys := update_row key' (activation_keys s)\<rparr>"
  then obtain key key' n where
    key: "first_of sel (\<lambda>k. user_id k = Some target_id \<and> status k = ''activated'')
        (activation_keys s) = Some key" and n: "1 \<le> n" and
    ext: "extended key n now = Inr key'" and
    s': "snd (extend_license sel target_id data now admin s) =
        s\<lparr>activation_keys := update_row key' (activation_keys s)\<rparr>" by blast
  have "key_ok pos key" "status key = ''activated''"
    using first_of_SomeD[OF key] assms by blast+
  from extended_key_ok[OF this n ext] have "key_ok pos key'" .
  then show ?thesis unfolding s' using update_row_all[OF assms] by simp
qed

lemma extend_license_devices:
  "devices (snd (extend_license sel target_id data now admin s)) = devices s"
  using extend_license_snd[of sel target_id data now admin s] by auto

lemma activate_devices: "devices (snd (activate env data now usr s)) = devices s"
  using activate_snd[of env data now usr s] by auto

lemma assign_key_devices: "devices (snd (assign_key target_id data now admin s)) = devices s"
  using assign_key_snd[of target_id data now admin s] by auto

lemma insert_device_Inr:
  "insert_device d s1 = Inr s2 \<Longrightarrow>
     devices s2 = devices s1 @ [d\<lparr>dev_id := next_device_id s1\<rparr>] \<and>
     (device_id d, platform d) \<notin> set (device_pairs s1) \<and>
     activation_keys s2 = activation_keys s1 \<and> users s2 = users s1"
  by (auto simp: insert_device_def device_pairs_def split: if_splits)

lemma snd_case_sum:
  "snd (case x of Inl e \<Rightarrow> (f e, t) | Inr v \<Rightarrow> (g v, t)) = t"
  by (cases x) auto

lemma register_snd:
  "snd (register env data now now' s) = s \<or>
   (\<exists>usr device s2. insert_device device
        (s\<lparr>users := users s @ [usr], next_user_id := Suc (next_user_id s)\<rparr>) = Inr s2 \<and>
      snd (register env data now now' s) = s2)"
  by (auto simp: register_def Let_def snd_case_sum split: option.splits sum.splits)

lemma login_snd:
  "snd (login env data t1 t2 now' s) = s \<or>
   (\<exists>device s2. insert_device device s = Inr s2 \<and> snd (login env data t1 t2 now' s) = s2)"
  by (auto simp: login_def Let_def snd_case_sum split: option.splits sum.splits)

lemma status_route_snd: "snd (status_route now usr s) = s"
  by (simp add: status_route_def split: option.splits sum.splits)

lemma update_user_tables:
  "activation_keys (snd (update_user env target_id data admin s)) = activation_keys s \<and>
   devices (snd (update_user env target_id data admin s)) = devices s"
  by (simp add: update_user_def Let_def split: option.splits)

lemma create_admin_tables:
  "activation_keys (create_admin env mail password s) = activation_keys s \<and>
   devices (create_admin env mail password s) = devices s"
  by (simp add: create_admin_def split: option.splits)

lemma delete_key_tables:
  "set (activation_keys (snd (delete_key kid usr s))) \<subseteq> set (activation_keys s) \<and>
   devices (snd (delete_key kid usr s)) = devices s"
  using set_delete_first[of "\<lambda>k. key_id k = kid" "activation_keys s"]
  by (simp add: delete_key_def split: option.splits)

lemma flush_keys_rows:
  "flush_keys ks s = Inr s' \<Longrightarrow>
     devices s' = devices s \<and>
     (\<forall>k\<in>set (activation_keys s'). k \<in> set (activation_keys s) \<or>
        (\<exists>k0\<in>set ks. \<exists>i. k = k0\<lparr>key_id := i\<rparr>))"
proof (induction ks arbitrary: s)
  case Nil
  then show ?case by simp
next
  case (Cons k ks)
  from Cons.prems obtain s1 where s1: "insert_key k s = Inr s1" and rest: "flush_keys ks s1 = Inr s'"
    by (auto split: sum.splits)
  from s1 have a: "devices s1 = devices s"
    "activation_keys s1 = activation_keys s @ [k\<lparr>key_id := next_key_id s\<rparr>]"
    by (auto simp: insert_key_def split: if_splits)
  from Cons.IH[OF rest] a show ?case by auto
qed

lemma pending_keys_rows:
  "k0 \<in> set (pending_keys env rnd d now admin) \<Longrightarrow>
     (status k0 = ''sold'' \<or> status k0 = ''available'') \<and>
     duration_days k0 = get_or (gen_duration_days d) 365"
  by (auto simp: pending_keys_def Let_def split: if_splits)

lemma generate_keys_devices:
  "devices (snd (generate_keys env rnd data now admin s)) = devices s"
  using flush_keys_rows
  by (auto simp: generate_keys_def split: option.splits sum.splits)

lemma generate_keys_keys_ok:
  assumes "\<forall>k\<in>set (activation_keys s). key_ok pos k"
    and "\<And>d. data = Some d \<Longrightarrow> pos \<Longrightarrow> 1 \<le> get_or (gen_duration_days d) 365"
  shows "\<forall>k\<in>set (activation_keys (snd (generate_keys env rnd data now admin s))). key_ok pos k"
proof (cases data)
  case None
  then show ?thesis using assms(1) by (simp add: generate_keys_def)
next
  case (Some d)
  show ?thesis
  proof (cases "flush_keys (pending_keys env rnd d now admin) s")
    case (Inl e)
    then show ?thesis using assms(1) Some by (simp add: generate_keys_def)
  next
    case (Inr s')
    have new: "key_ok pos (k0\<lparr>key_id := i\<rparr>)"
      if "k0 \<in> set (pending_keys env rnd d now admin)" for k0 i
      using pending_keys_rows[OF that] assms(2)[OF Some] by (auto simp: key_ok_def)
    have "\<forall>k\<in>set (activation_keys s'). key_ok pos k"
      using flush_keys_rows[OF Inr] assms(1) new by blast
    then show ?thesis using Some Inr by (simp add: generate_keys_def)
  qed
qed

lemma update_key_snd:
  "snd (update_key env kid data now usr s) = s \<or>
   (\<exists>key d key'. data = Some d \<and> find (\<lambda>k. key_id k = kid) (activation_keys s) = Some key \<and>
      update_duration d (update_sale_fields env d (update_status d now key)) = Inr key' \<and>
      snd (update_key env kid data now usr s) =
        s\<lparr>activation_keys :=
            update_first (\<lambda>k. key_id k = kid) (\<lambda>_. key') (activation_keys s),
          devices := (if upd_status d = Some ''revoked''
                      then revoke_trials (user_id key) now (devices s) else devices s)\<rparr>)"
  by (auto simp: update_key_def Let_def split: option.splits sum.splits)

lemma key_ok_update_status: "key_ok pos k \<Longrightarrow> key_ok pos (update_status d now k)"
  by (auto simp: update_status_def key_ok_def split: option.splits)

lemma key_ok_update_sale_fields: "key_ok pos k \<Longrightarrow> key_ok pos (update_sale_fields env d k)"
  by (simp add: key_ok_def update_sale_fields_keeps)

lemma key_ok_update_duration:
  assumes "key_ok pos k" and "\<And>n. upd_duration_days d = Some n \<Longrightarrow> pos \<Longrightarrow> 1 \<le> n"
    and "update_duration d k = Inr k'"
  shows "key_ok pos k'"
proof (cases "upd_duration_days d")
  case None
  then show ?thesis using assms(1,3) by (simp add: update_duration_def)
next
  case (Some n)
  have "pos \<Longrightarrow> 0 < of_days n" using assms(2)[OF Some] by (simp add: of_days_def)
  then show ?thesis using assms(1,3) assms(2)[OF Some] Some
    by (auto simp: update_duration_def key_ok_def Let_def plus_days_Naive
        split: option.splits if_splits)
qed

lemma update_key_keys_ok:
  assumes "\<forall>k\<in>set (activation_keys s). key_ok pos k"
    and "\<And>d n. data = Some d \<Longrightarrow> upd_duration_days d = Some n \<Longrightarrow> pos \<Longrightarrow> 1 \<le> n"
  shows "\<forall>k\<in>set (activation_keys (snd (update_key env kid data now usr s))). key_ok pos k"
proof -
  from update_key_snd[of env kid data now usr s]
  consider (same) "snd (update_key env kid data now usr s) = s"
    | (upd) key d key' where "data = Some d"
        "find (\<lambda>k. key_id k = kid) (activation_keys s) = Some key"
        "update_duration d (update_sale_fields env d (update_status d now key)) = Inr key'"
        "activation_keys (snd (update_key env kid data now usr s)) =
            update_first (\<lambda>k. key_id k = kid) (\<lambda>_. key') (activation_keys s)"
    by auto
  then show ?thesis
  proof cases
    case same
    then show ?thesis using assms(1) by simp
  next
    case upd
    have "key_ok pos key" using find_SomeD[OF upd(2)] assms(1) by blast
    then have "key_ok pos (update_sale_fields env d (update_status d now key))"
      by (intro key_ok_update_sale_fields key_ok_update_status)
    then have "key_ok pos key'"
      using assms(2)[OF upd(1)] upd(3) by (rule key_ok_update_duration)
    then show ?thesis unfolding upd(4) by (intro update_first_all[OF assms(1)]) simp
  qed
qed

lemma revoke_trials_pairs:
  "map (\<lambda>d. ((device_id d, platform d), dev_user_id d)) (revoke_trials owner now ds) =
   map (\<lambda>d. ((device_id d, platform d), dev_user_id d)) ds"
  by (auto simp: revoke_trials_def split: option.splits)

lemma update_key_bindings:
  "map (\<lambda>d. ((device_id d, platform d), dev_user_id d))
     (devices (snd (update_key env kid data now usr s))) =
   map (\<lambda>d. ((device_id d, platform d), dev_user_id d)) (devices s)"
  using update_key_snd[of env kid data now usr s] revoke_trials_pairs by auto

lemma register_keys: "activation_keys (snd (register env data now now' s)) = activation_keys s"
  using register_snd[of env data now now' s] insert_device_Inr by auto

lemma login_keys: "activation_keys (snd (login env data t1 t2 now' s)) = activation_keys s"
  using login_snd[of env data t1 t2 now' s] insert_device_Inr by auto

lemma step_keys_ok:
  assumes "step env ok s s'" and "pos \<Longrightarrow> \<forall>n. ok n \<longrightarrow> 1 \<le> n"
    and inv: "\<forall>k\<in>set (activation_keys s). key_ok pos k"
  shows "\<forall>k\<in>set (activation_keys s'). key_ok pos k"
  using assms(1)
proof cases
  case (step_register data now now')
  then show ?thesis using inv register_keys by simp
next
  case (step_login data t1 t2 now')
  then show ?thesis using inv login_keys by simp
next
  case (step_status now ident)
  then show ?thesis using inv jwt_required_custom_snd[of "status_route now" ident s]
    by (auto simp: status_route_snd)
next
  case (step_activate data now ident)
  then show ?thesis using inv jwt_required_custom_snd[of "activate env data now" ident s]
      activate_keys_ok[OF inv] by auto
next
  case (step_extend sel target_id data now ident)
  then show ?thesis
    using inv admin_required_snd[of "extend_license sel target_id data now" ident s]
      extend_license_keys_ok[OF inv] by auto
next
  case (step_assign target_id data now ident)
  then show ?thesis using inv admin_required_snd[of "assign_key target_id data now" ident s]
      assign_key_keys_ok[OF inv] by auto
next
  case (step_generate data rnd now ident)
  have "\<forall>k\<in>set (activation_keys (snd (generate_keys env rnd data now u s))). key_ok pos k" for u
    using step_generate(2) assms(2) by (intro generate_keys_keys_ok[OF inv]) auto
  then show ?thesis using step_generate(1) inv
      admin_required_snd[of "generate_keys env rnd data now" ident s] by auto
next
  case (step_update_key data kid now ident)
  have "\<forall>k\<in>set (activation_keys (snd (update_key env kid data now u s))). key_ok pos k" for u
    using step_update_key(2) assms(2) by (intro update_key_keys_ok[OF inv]) auto
  then show ?thesis using step_update_key(1) inv
      admin_required_snd[of "update_key env kid data now" ident s] by auto
next
  case (step_delete_key kid ident)
  then show ?thesis using inv admin_required_snd[of "delete_key kid" ident s]
      delete_key_tables by fastforce
next
  case (step_update_user target_id data ident)
  then show ?thesis using inv admin_required_snd[of "update_user env target_id data" ident s]
      update_user_tables by auto
next
  case (step_create_admin mail password)
  then show ?thesis using inv create_admin_tables by simp
qed

lemma reachable_keys_ok:
  assumes "reachable env ok s" and "pos \<Longrightarrow> \<forall>n. ok n \<longrightarrow> 1 \<le> n"
  shows "\<forall>k\<in>set (activation_keys s). key_ok pos k"
  using assms(1)
proof induction
  case reachable_init
  then show ?case by (simp add: init_db_def)
next
  case (reachable_step s s')
  from step_keys_ok[OF reachable_step(2) assms(2) reachable_step(3)] show ?case by simp
qed

text \<open>
  C4, as the code has it. In every store reached from the empty one by the operations
  (registration, login, status, redemption, extension, admin assignment, generation, update
  and deletion of keys, update of a user, creation of an admin), every activated key has
  \<open>user_id\<close>, \<open>activated_email\<close>, \<open>activated_at\<close> and \<open>expires_at\<close> non-null. When
  moreover every \<open>duration_days\<close> given to key generation and to key update is at least 1,
  \<open>expires_at\<close> is greater than \<open>activated_at\<close> for every activated key.
\<close>

theorem activated_key_invariant:
  assumes "reachable env ok s"
  shows "list_all key_fields_inv (activation_keys s) \<and>
         ((\<forall>n. ok n \<longrightarrow> 1 \<le> n) \<longrightarrow> list_all key_inv (activation_keys s))"
proof
  have "\<forall>k\<in>set (activation_keys s). key_ok False k"
    using reachable_keys_ok[OF assms, of False] by simp
  then show "list_all key_fields_inv (activation_keys s)"
    by (auto simp: list_all_iff key_ok_def key_fields_inv_def)
next
  show "(\<forall>n. ok n \<longrightarrow> 1 \<le> n) \<longrightarrow> list_all key_inv (activation_keys s)"
  proof
    assume "\<forall>n. ok n \<longrightarrow> 1 \<le> n"
    then have "\<forall>k\<in>set (activation_keys s). key_ok True k"
      using reachable_keys_ok[OF assms, of True] by simp
    then show "list_all key_inv (activation_keys s)"
      by (auto simp: list_all_iff key_ok_def key_inv_def)
  qed
qed

text \<open>
  C4 as stated fails at the update of \<open>duration_days\<close>: in the store \<open>db1\<close> the
  invariant holds; the admin sets the duration of the activated \<open>key1\<close> to 0, the expiry
  is recomputed as \<open>activated_at\<close> plus 0 days, and the key stays activated with
  \<open>expires_at = activated_at\<close>.
\<close>

theorem duration_zero_counterexample:
  "list_all key_inv (activation_keys db1) \<and>
   activation_keys (snd (admin_required (update_key env0 1 (Some upd0) 5) 2 db1)) =
     [key1\<lparr>duration_days := 0, expires_at := Some 0\<rparr>] \<and>
   \<not> list_all key_inv (activation_keys (snd (admin_required (update_key env0 1 (Some upd0) 5) 2 db1)))"
  by (simp add: key_inv_def db1_def key1_def admin0_def user3_def upd0_def admin_required_def
      update_key_def update_status_def update_sale_fields_def update_duration_def Let_def
      plus_days_Naive days_fit_def of_days_def DATETIME_MAX_def)

lemma run3_keys:
  "activation_keys run3 =
     [\<lparr>key_id = 1, key_code = ''AAAA-BBBB-CCCC-DDDD'', duration_days = 365,
       status = ''activated'', user_id = Some 2, activated_email = Some ''ann@example.com'',
       activated_at = Some 20, expires_at = Some 31536000000020,
       sold_to_name = None, sold_to_email = None, sold_at = None, sold_price = None,
       key_notes = None, created_by = Some 1, created_at = Some 0\<rparr>]"
  by code_simp

lemma run_reachable: "reachable env0 ok_pos run2" "reachable env0 ok_pos run3"
proof -
  have 0: "reachable env0 ok_pos run0"
    unfolding run0_def by (rule reachable_step[OF reachable_init step_create_admin])
  have 1: "reachable env0 ok_pos run1"
    unfolding run1_def
    by (rule reachable_step[OF 0 step_generate]) (simp add: gen1_def get_or_def ok_pos_def)
  show 2: "reachable env0 ok_pos run2"
    unfolding run2_def by (rule reachable_step[OF 1 step_register])
  show "reachable env0 ok_pos run3"
    unfolding run3_def by (rule reachable_step[OF 2 step_activate])
qed

theorem activated_key_invariant_witness:
  "list_all key_fields_inv (activation_keys run3) \<and> list_all key_inv (activation_keys run3) \<and>
   map status (activation_keys run3) = [''activated'']"
  using activated_key_invariant [OF run_reachable(2)]
  by (simp add: ok_pos_def run3_keys)

subsection \<open>One device row for each pair\<close>

lemma step_devices:
  assumes "step env ok s s'"
  shows "map (\<lambda>d. ((device_id d, platform d), dev_user_id d)) (devices s') =
           map (\<lambda>d. ((device_id d, platform d), dev_user_id d)) (devices s) \<or>
         (\<exists>d. devices s' = devices s @ [d] \<and> (device_id d, platform d) \<notin> set (device_pairs s))"
  using assms
proof cases
  case (step_register data now now')
  from register_snd[of env data now now' s] show ?thesis
  proof
    assume "snd (register env data now now' s) = s"
    then show ?thesis using step_register by simp
  next
    assume "\<exists>usr device s2. insert_device device
        (s\<lparr>users := users s @ [usr], next_user_id := Suc (next_user_id s)\<rparr>) = Inr s2 \<and>
      snd (register env data now now' s) = s2"
    then obtain usr device s2 where
      ins: "insert_device device (s\<lparr>users := users s @ [usr], next_user_id := Suc (next_user_id s)\<rparr>) = Inr s2"
      and s2: "snd (register env data now now' s) = s2" by blast
    from insert_device_Inr[OF ins] show ?thesis
      unfolding step_register s2 by (auto simp: device_pairs_def)
  qed
next
  case (step_login data t1 t2 now')
  from login_snd[of env data t1 t2 now' s] show ?thesis
  proof
    assume "snd (login env data t1 t2 now' s) = s"
    then show ?thesis using step_login by simp
  next
    assume "\<exists>device s2. insert_device device s = Inr s2 \<and> snd (login env data t1 t2 now' s) = s2"
    then obtain device s2 where ins: "insert_device device s = Inr s2"
      and s2: "snd (login env data t1 t2 now' s) = s2" by blast
    from insert_device_Inr[OF ins] show ?thesis
      unfolding step_login s2 by (auto simp: device_pairs_def)
  qed
next
  case (step_status now ident)
  then show ?thesis using jwt_required_custom_snd[of "status_route now" ident s]
    by (auto simp: status_route_snd)
next
  case (step_activate data now ident)
  then show ?thesis using jwt_required_custom_snd[of "activate env data now" ident s]
    by (auto simp: activate_devices)
next
  case (step_extend sel target_id data now ident)
  then show ?thesis using admin_required_snd[of "extend_license sel target_id data now" ident s]
    by (auto simp: extend_license_devices)
next
  case (step_assign target_id data now ident)
  then show ?thesis using admin_required_snd[of "assign_key target_id data now" ident s]
    by (auto simp: assign_key_devices)
next
  case (step_generate data rnd now ident)
  then show ?thesis using admin_required_snd[of "generate_keys env rnd data now" ident s]
    by (auto simp: generate_keys_devices)
next
  case (step_update_key data kid now ident)
  then show ?thesis using admin_required_snd[of "update_key env kid data now" ident s]
    by (auto simp: update_key_bindings)
next
  case (step_delete_key kid ident)
  then show ?thesis using admin_required_snd[of "delete_key kid" ident s] delete_key_tables
    by auto
next
  case (step_update_user target_id data ident)
  then show ?thesis using admin_required_snd[of "update_user env target_id data" ident s]
      update_user_tables by auto
next
  case (step_create_admin mail password)
  then show ?thesis using create_admin_tables by simp
qed

lemma device_pairs_bindings:
  "device_pairs s = map fst (map (\<lambda>d. ((device_id d, platform d), dev_user_id d)) (devices s))"
  by (simp add: device_pairs_def comp_def)

lemma step_distinct:
  assumes "step env ok s s'" and "distinct (device_pairs s)"
  shows "distinct (device_pairs s')"
  using step_devices[OF assms(1)]
proof
  assume "map (\<lambda>d. ((device_id d, platform d), dev_user_id d)) (devices s') =
           map (\<lambda>d. ((device_id d, platform d), dev_user_id d)) (devices s)"
  then have "device_pairs s' = device_pairs s" by (simp add: device_pairs_bindings)
  then show ?thesis using assms(2) by simp
next
  assume "\<exists>d. devices s' = devices s @ [d] \<and> (device_id d, platform d) \<notin> set (device_pairs s)"
  then show ?thesis using assms(2) by (auto simp: device_pairs_def)
qed

lemma step_prefix:
  assumes "step env ok s s'"
  shows "\<exists>extra. map (\<lambda>d. ((device_id d, platform d), dev_user_id d)) (devices s') =
           map (\<lambda>d. ((device_id d, platform d), dev_user_id d)) (devices s) @ extra"
  using step_devices[OF assms] by auto

lemma steps_prefix:
  assumes "(step env ok)\<^sup>*\<^sup>* s s'"
  shows "\<exists>extra. map (\<lambda>d. ((device_id d, platform d), dev_user_id d)) (devices s') =
           map (\<lambda>d. ((device_id d, platform d), dev_user_id d)) (devices s) @ extra"
  using assms
proof (induction rule: rtranclp_induct)
  case base
  then show ?case by simp
next
  case (step y z)
  from step.IH step_prefix[OF step.hyps(2)] show ?case by auto
qed

lemma reachable_distinct: "reachable env ok s \<Longrightarrow> distinct (device_pairs s)"
proof (induction rule: reachable.induct)
  case reachable_init
  then show ?case by (simp add: device_pairs_def init_db_def)
next
  case (reachable_step s s')
  then show ?case using step_distinct by blast
qed

lemma reachable_steps:
  assumes "(step env ok)\<^sup>*\<^sup>* s s'" and "reachable env ok s"
  shows "reachable env ok s'"
  using assms by (induction rule: rtranclp_induct) (auto intro: reachable_step)

text \<open>
  C10. In every store \<open>s'\<close> reached by any number of operations from a reachable store
  \<open>s\<close>, no two device rows have the same pair (device id, platform), and every pair that
  has a row in \<open>s\<close> is still bound to the same user in \<open>s'\<close>. Registration adds a row
  only for a pair without one; the insert of the login for a pair that has a row of another
  user is refused by the unique constraint, and the request ends in the integrity error.
\<close>

theorem device_binding_invariant:
  assumes "reachable env ok s" and "(step env ok)\<^sup>*\<^sup>* s s'"
  shows "distinct (device_pairs s') \<and>
         (\<forall>d\<in>set (devices s). owner_of s' (device_id d, platform d) = Some (dev_user_id d))"
proof
  show dist: "distinct (device_pairs s')"
    using reachable_distinct[OF reachable_steps[OF assms(2,1)]] .
  show "\<forall>d\<in>set (devices s). owner_of s' (device_id d, platform d) = Some (dev_user_id d)"
  proof
    fix d assume d: "d \<in> set (devices s)"
    let ?b = "\<lambda>d. ((device_id d, platform d), dev_user_id d)"
    from steps_prefix[OF assms(2)] obtain extra where
      ex: "map ?b (devices s') = map ?b (devices s) @ extra" by blast
    have "?b d \<in> set (map ?b (devices s))" using d by auto
    then have "((device_id d, platform d), dev_user_id d) \<in> set (map ?b (devices s'))"
      unfolding ex by simp
    moreover have "distinct (map fst (map ?b (devices s')))"
      using dist by (simp add: device_pairs_bindings)
    ultimately show "owner_of s' (device_id d, platform d) = Some (dev_user_id d)"
      unfolding owner_of_def by (rule map_of_is_SomeI[rotated])
  qed
qed

lemma run5_facts:
  "device_pairs run5 = [(''phone-1'', ''android''), (''phone-2'', ''android'')]"
  "owner_of run5 (''phone-1'', ''android'') = Some 2"
  "fst (login env0 (Some login_bob) 40 41 42 run4) = Unhandled IntegrityError"
  "map dev_user_id (devices run2) = [2]"
  by code_simp+

lemma run_steps: "(step env0 ok_pos)\<^sup>*\<^sup>* run2 run5"
proof -
  have "step env0 ok_pos run2 run3" unfolding run3_def by (rule step_activate)
  moreover have "step env0 ok_pos run3 run4" unfolding run4_def by (rule step_register)
  moreover have "step env0 ok_pos run4 run5" unfolding run5_def by (rule step_login)
  ultimately show ?thesis by (meson rtranclp.rtrancl_into_rtrancl rtranclp.rtrancl_refl)
qed

theorem device_binding_invariant_witness:
  "device_pairs run5 = [(''phone-1'', ''android''), (''phone-2'', ''android'')] \<and>
   owner_of run5 (''phone-1'', ''android'') = Some 2 \<and>
   map dev_user_id (devices run2) = [2] \<and>
   fst (login env0 (Some login_bob) 40 41 42 run4) = Unhandled IntegrityError"
  using device_binding_invariant [OF run_reachable(1) run_steps]
  by (simp add: run5_facts)

end
